theory Spec2Isabelle
  imports Main "HOL-Library.Sublist" "HOL-Library.AList"
begin

section \<open>JavaScript values\<close>

text \<open>
  The values that travel through the program are decoded JSON documents, plus
  \<open>undefined\<close> (the result of reading a property that is not there). Strings are lists of
  8-bit characters, read as the code points U+0000 to U+00FF. A number is given by the text
  that \<open>String\<close> prints for it, which is \<open>0\<close> for zero and for minus zero: the program
  does nothing with a number but test and print it. \<open>JObj\<close> lists an object's own
  properties, each key once.
\<close>

datatype js =
    JUndefined
  | JNull
  | JBool bool
  | JNum string
  | JStr string
  | JArr "js list"
  | JObj "(string \<times> js) list"

text \<open>The exceptions the program can meet, each with its \<open>message\<close>.\<close>

datatype js_error =
    TypeError string
  | SyntaxError string
  | PlainError string

fun message :: "js_error \<Rightarrow> string" where
  "message (TypeError m) = m"
| "message (SyntaxError m) = m"
| "message (PlainError m) = m"

text \<open>\<open>!v\<close> is \<open>\<not> truthy v\<close>.\<close>

fun truthy :: "js \<Rightarrow> bool" where
  "truthy JUndefined = False"
| "truthy JNull = False"
| "truthy (JBool b) = b"
| "truthy (JNum t) = (t \<noteq> ''0'')"
| "truthy (JStr s) = (s \<noteq> [])"
| "truthy (JArr xs) = True"
| "truthy (JObj kvs) = True"

fun nullish :: "js \<Rightarrow> bool" where
  "nullish JUndefined = True"
| "nullish JNull = True"
| "nullish v = False"

text \<open>Decimal notation, as a template literal prints an HTTP status.\<close>

function show_nat :: "nat \<Rightarrow> string" where
  "show_nat n =
     (if n < 10 then [''0123456789'' ! n]
      else show_nat (n div 10) @ [''0123456789'' ! (n mod 10)])"
  by pat_completeness auto
termination
  by (relation "measure (\<lambda>n. n)") auto

declare show_nat.simps [simp del]

text \<open>\<open>xs.join(sep)\<close> on a list of strings.\<close>

fun join :: "string \<Rightarrow> string list \<Rightarrow> string" where
  "join sep [] = []"
| "join sep [x] = x"
| "join sep (x # y # ys) = x @ sep @ join sep (y # ys)"

text \<open>The results of a list of conversions, or the first exception among them.\<close>

fun collect :: "('e + 'a) list \<Rightarrow> 'e + 'a list" where
  "collect [] = Inr []"
| "collect (Inl e # rs) = Inl e"
| "collect (Inr x # rs) = (case collect rs of Inl e \<Rightarrow> Inl e | Inr xs \<Rightarrow> Inr (x # xs))"

text \<open>\<open>xs.map(f).join(sep)\<close> for an \<open>f\<close> that may throw.\<close>

definition joined :: "string \<Rightarrow> ('e + string) list \<Rightarrow> 'e + string" where
  "joined sep rs = (case collect rs of Inl e \<Rightarrow> Inl e | Inr ts \<Rightarrow> Inr (join sep ts))"

text \<open>
  \<open>String(v)\<close>, which is also what a template literal \<open>${v}\<close>, a computed property key
  \<open>o[v]\<close> and \<open>new Error(v)\<close> apply to \<open>v\<close>. An array joins its elements with a comma,
  printing \<open>null\<close> and \<open>undefined\<close> elements as the empty string. An object prints through
  the \<open>toString\<close> it inherits, unless it has a property of that name of its own: a decoded
  JSON value cannot be called, and the conversion throws (the message is V8's).
\<close>

fun js_to_string :: "js \<Rightarrow> js_error + string" where
  "js_to_string JUndefined = Inr ''undefined''"
| "js_to_string JNull = Inr ''null''"
| "js_to_string (JBool b) = Inr (if b then ''true'' else ''false'')"
| "js_to_string (JNum t) = Inr t"
| "js_to_string (JStr s) = Inr s"
| "js_to_string (JArr xs) =
     joined '','' (map (\<lambda>x. if nullish x then Inr [] else js_to_string x) xs)"
| "js_to_string (JObj kvs) =
     (if map_of kvs ''toString'' = None then Inr ''[object Object]''
      else Inl (TypeError ''Cannot convert object to primitive value''))"

text \<open>
  \<open>v.k\<close> for a property name \<open>k\<close> that is neither an index nor a member inherited from a
  prototype. The names the program reads are \<open>prompt\<close>, \<open>provider\<close>, \<open>error\<close>, \<open>message\<close>,
  \<open>choices\<close>, \<open>content\<close>, \<open>text\<close>, \<open>candidates\<close>, \<open>parts\<close> and \<open>response\<close>. Reading a
  property of \<open>null\<close> or \<open>undefined\<close> throws (the message is V8's).
\<close>

fun get_prop :: "js \<Rightarrow> string \<Rightarrow> js_error + js" where
  "get_prop JUndefined k =
     Inl (TypeError (''Cannot read properties of undefined (reading '' @ [CHR 0x27] @ k @ [CHR 0x27] @ '')''))"
| "get_prop JNull k =
     Inl (TypeError (''Cannot read properties of null (reading '' @ [CHR 0x27] @ k @ [CHR 0x27] @ '')''))"
| "get_prop (JObj kvs) k = Inr (case map_of kvs k of None \<Rightarrow> JUndefined | Some v \<Rightarrow> v)"
| "get_prop v k = Inr JUndefined"

text \<open>\<open>v[0]\<close>: the first element of an array, the first character of a string.\<close>

fun get_first :: "js \<Rightarrow> js_error + js" where
  "get_first JUndefined = get_prop JUndefined ''0''"
| "get_first JNull = get_prop JNull ''0''"
| "get_first (JArr xs) = Inr (case xs of [] \<Rightarrow> JUndefined | x # _ \<Rightarrow> x)"
| "get_first (JStr s) = Inr (case s of [] \<Rightarrow> JUndefined | c # _ \<Rightarrow> JStr [c])"
| "get_first (JObj kvs) = get_prop (JObj kvs) ''0''"
| "get_first v = Inr JUndefined"

text \<open>Optional chaining: \<open>v?.k\<close> and \<open>v?.[0]\<close> give \<open>undefined\<close> on \<open>null\<close> and \<open>undefined\<close>.\<close>

definition opt_prop :: "js \<Rightarrow> string \<Rightarrow> js" where
  "opt_prop v k = (case get_prop v k of Inl e \<Rightarrow> JUndefined | Inr x \<Rightarrow> x)"

definition opt_first :: "js \<Rightarrow> js" where
  "opt_first v = (case get_first v of Inl e \<Rightarrow> JUndefined | Inr x \<Rightarrow> x)"

text \<open>A chain of plain reads stops at the first one that throws.\<close>

definition then_prop :: "js_error + js \<Rightarrow> string \<Rightarrow> js_error + js" where
  "then_prop r k = (case r of Inl e \<Rightarrow> Inl e | Inr v \<Rightarrow> get_prop v k)"

definition then_first :: "js_error + js \<Rightarrow> js_error + js" where
  "then_first r = (case r of Inl e \<Rightarrow> Inl e | Inr v \<Rightarrow> get_first v)"


section \<open>The provider registry (\<open>PROVIDERS\<close> of \<open>pages/api/query.js\<close>)\<close>

text \<open>\<open>process.env\<close>: a variable is absent or holds a string.\<close>

type_synonym env = "string \<Rightarrow> string option"

text \<open>\<open>process.env.NAME\<close> as a value, and inside a template literal.\<close>

definition env_value :: "env \<Rightarrow> string \<Rightarrow> js" where
  "env_value e name = (case e name of None \<Rightarrow> JUndefined | Some v \<Rightarrow> JStr v)"

definition env_text :: "env \<Rightarrow> string \<Rightarrow> string" where
  "env_text e name = (case e name of None \<Rightarrow> ''undefined'' | Some v \<Rightarrow> v)"

datatype url_spec = StaticUrl string | DynamicUrl "string \<Rightarrow> string"

record provider_config =
  url :: url_spec
  getHeaders :: "env \<Rightarrow> (string \<times> js) list"
  getBody :: "js \<Rightarrow> js"
  extractResponse :: "js \<Rightarrow> js_error + js"
  useDynamicUrl :: bool
  keyEnvVar :: string
  modelName :: string

text \<open>The request body of the three OpenAI-style providers and of Claude.\<close>

definition user_messages :: "js \<Rightarrow> js" where
  "user_messages prompt = JArr [JObj [(''role'', JStr ''user''), (''content'', prompt)]]"

text \<open>\<open>data.choices[0].message.content\<close>\<close>

definition extract_choices :: "js \<Rightarrow> js_error + js" where
  "extract_choices data =
     then_prop (then_prop (then_first (get_prop data ''choices'')) ''message'') ''content''"

text \<open>\<open>data.content[0].text\<close>\<close>

definition extract_claude :: "js \<Rightarrow> js_error + js" where
  "extract_claude data = then_prop (then_first (get_prop data ''content'')) ''text''"

text \<open>
  Gemini's extractor tests \<open>data.candidates && data.candidates[0]?.content?.parts?.[0]?.text\<close>
  and throws when the test is falsy.
\<close>

definition extract_gemini :: "js \<Rightarrow> js_error + js" where
  "extract_gemini data =
     (case get_prop data ''candidates'' of
        Inl e \<Rightarrow> Inl e
      | Inr candidates \<Rightarrow>
          if truthy candidates \<and>
             truthy (opt_prop (opt_first (opt_prop (opt_prop (opt_first candidates)
                       ''content'') ''parts'')) ''text'')
          then then_prop (then_first (then_prop (then_prop (get_first candidates)
                       ''content'') ''parts'')) ''text''
          else Inl (PlainError ''Unexpected Gemini response format''))"

definition chatgpt :: provider_config where
  "chatgpt = \<lparr>
     url = StaticUrl ''https://api.openai.com/v1/chat/completions'',
     getHeaders = (\<lambda>e.
       [(''Authorization'', JStr (''Bearer '' @ env_text e ''OPENAI_API_KEY'')),
        (''Content-Type'', JStr ''application/json'')]),
     getBody = (\<lambda>prompt. JObj
       [(''model'', JStr ''gpt-5.2''), (''messages'', user_messages prompt),
        (''max_tokens'', JNum ''2048'')]),
     extractResponse = extract_choices,
     useDynamicUrl = False,
     keyEnvVar = ''OPENAI_API_KEY'',
     modelName = ''GPT-5.2'' \<rparr>"

definition claude :: provider_config where
  "claude = \<lparr>
     url = StaticUrl ''https://api.anthropic.com/v1/messages'',
     getHeaders = (\<lambda>e.
       [(''x-api-key'', env_value e ''ANTHROPIC_API_KEY''),
        (''anthropic-version'', JStr ''2023-06-01''),
        (''Content-Type'', JStr ''application/json'')]),
     getBody = (\<lambda>prompt. JObj
       [(''model'', JStr ''claude-opus-4-5-20251101''), (''max_tokens'', JNum ''2048''),
        (''messages'', user_messages prompt)]),
     extractResponse = extract_claude,
     useDynamicUrl = False,
     keyEnvVar = ''ANTHROPIC_API_KEY'',
     modelName = ''Claude Opus 4.5'' \<rparr>"

definition gemini :: provider_config where
  "gemini = \<lparr>
     url = DynamicUrl (\<lambda>apiKey.
       ''https://generativelanguage.googleapis.com/v1beta/models/gemini-3-pro:generateContent?key=''
         @ apiKey),
     getHeaders = (\<lambda>e. [(''Content-Type'', JStr ''application/json'')]),
     getBody = (\<lambda>prompt. JObj
       [(''contents'', JArr [JObj [(''parts'', JArr [JObj [(''text'', prompt)]])]])]),
     extractResponse = extract_gemini,
     useDynamicUrl = True,
     keyEnvVar = ''GOOGLE_API_KEY'',
     modelName = ''Gemini 3 Pro'' \<rparr>"

definition grok :: provider_config where
  "grok = \<lparr>
     url = StaticUrl ''https://api.x.ai/v1/chat/completions'',
     getHeaders = (\<lambda>e.
       [(''Authorization'', JStr (''Bearer '' @ env_text e ''XAI_API_KEY'')),
        (''Content-Type'', JStr ''application/json'')]),
     getBody = (\<lambda>prompt. JObj
       [(''model'', JStr ''grok-4''), (''messages'', user_messages prompt),
        (''max_tokens'', JNum ''2048'')]),
     extractResponse = extract_choices,
     useDynamicUrl = False,
     keyEnvVar = ''XAI_API_KEY'',
     modelName = ''Grok 4'' \<rparr>"

definition perplexity :: provider_config where
  "perplexity = \<lparr>
     url = StaticUrl ''https://api.perplexity.ai/chat/completions'',
     getHeaders = (\<lambda>e.
       [(''Authorization'', JStr (''Bearer '' @ env_text e ''PERPLEXITY_API_KEY'')),
        (''Content-Type'', JStr ''application/json'')]),
     getBody = (\<lambda>prompt. JObj
       [(''model'', JStr ''sonar-pro''), (''messages'', user_messages prompt),
        (''max_tokens'', JNum ''2048'')]),
     extractResponse = extract_choices,
     useDynamicUrl = False,
     keyEnvVar = ''PERPLEXITY_API_KEY'',
     modelName = ''Sonar Pro'' \<rparr>"

definition PROVIDERS :: "(string \<times> provider_config) list" where
  "PROVIDERS =
     [(''chatgpt'', chatgpt), (''claude'', claude), (''gemini'', gemini), (''grok'', grok),
      (''perplexity'', perplexity)]"

text \<open>
  \<open>PROVIDERS\<close> is an object literal, so \<open>PROVIDERS[key]\<close> also finds the members it inherits
  from \<open>Object.prototype\<close>. Each of them is truthy and has none of a descriptor's fields.
\<close>

definition object_prototype_keys :: "string list" where
  "object_prototype_keys =
     [''constructor'', ''__proto__'', ''hasOwnProperty'', ''isPrototypeOf'',
      ''propertyIsEnumerable'', ''toLocaleString'', ''toString'', ''valueOf'',
      ''__defineGetter__'', ''__defineSetter__'', ''__lookupGetter__'', ''__lookupSetter__'']"

datatype lookup = Own provider_config | Inherited | Missing

definition providers_get :: "string \<Rightarrow> lookup" where
  "providers_get key =
     (case map_of PROVIDERS key of
        Some config \<Rightarrow> Own config
      | None \<Rightarrow> if key \<in> set object_prototype_keys then Inherited else Missing)"


section \<open>The query endpoint (\<open>handler\<close> of \<open>pages/api/query.js\<close>)\<close>

text \<open>
  What the handler is given: the inbound request, the environment, and the network, which
  answers an outbound request with a rejected \<open>fetch\<close> or with a status and a body. Reading
  the body can fail too; when it succeeds it gives the text, and with it what \<open>JSON.parse\<close>
  makes of that text (a \<open>SyntaxError\<close> or a value).
\<close>

record http_request =
  http_url :: string
  http_method :: string
  http_headers :: "(string \<times> js) list"
  http_body :: js

datatype body_read = ReadFails js_error | ReadOk string "js_error + js"

datatype fetch_result = FetchFails js_error | FetchResponse nat body_read

record world =
  process_env :: env
  fetch :: "http_request \<Rightarrow> fetch_result"

record request =
  req_method :: string
  req_body :: js

text \<open>
  What the handler does: it answers with a status and a JSON body, or an exception leaves it;
  on the way it looks the provider up, checks the credential, calls out, and logs.
\<close>

datatype effect =
    Lookup string
  | CredentialCheck string
  | Outbound http_request
  | ConsoleError string string

datatype outcome = Responded nat js | Unhandled js_error

record result =
  outcome :: outcome
  effects :: "effect list"

text \<open>\<open>res.status(n).json(obj)\<close>: \<open>JSON.stringify\<close> leaves out a property that is \<open>undefined\<close>.\<close>

definition json_object :: "(string \<times> js) list \<Rightarrow> js" where
  "json_object kvs = JObj (filter (\<lambda>kv. snd kv \<noteq> JUndefined) kvs)"

definition respond :: "nat \<Rightarrow> (string \<times> js) list \<Rightarrow> effect list \<Rightarrow> result" where
  "respond status kvs fx = \<lparr> outcome = Responded status (json_object kvs), effects = fx \<rparr>"

text \<open>\<open>response.ok\<close>\<close>

definition ok :: "nat \<Rightarrow> bool" where
  "ok status = (200 \<le> status \<and> status \<le> 299)"

text \<open>\<open>const { prompt, provider } = req.body\<close> throws on \<open>null\<close> and \<open>undefined\<close>.\<close>

definition destructure :: "js \<Rightarrow> js_error + js \<times> js" where
  "destructure b =
     (if nullish b
      then Inl (TypeError (''Cannot destructure property '' @ [CHR 0x27] @ ''prompt'' @ [CHR 0x27]
                  @ '' of '' @ [CHR 0x27] @ ''req.body'' @ [CHR 0x27] @ '' as it is ''
                  @ (if b = JNull then ''null'' else ''undefined'') @ ''.''))
      else Inr (opt_prop b ''prompt'', opt_prop b ''provider''))"

text \<open>
  The message taken from a failed provider's body. The inner \<open>catch\<close> receives the
  \<open>SyntaxError\<close> of \<open>JSON.parse\<close> and also the \<open>TypeError\<close> of \<open>parsed.error\<close> when the body
  is the document \<open>null\<close>.
\<close>

definition parse_error :: "string \<Rightarrow> string \<Rightarrow> js_error + js \<Rightarrow> js" where
  "parse_error generic errorData parsed_result =
     (let caught = (if length errorData < 200 then JStr errorData else JStr generic) in
      case parsed_result of
        Inl e \<Rightarrow> caught
      | Inr parsed \<Rightarrow>
          (case get_prop parsed ''error'' of
             Inl e \<Rightarrow> caught
           | Inr err \<Rightarrow>
               if truthy (opt_prop err ''message'') then opt_prop err ''message''
               else if truthy (opt_prop parsed ''message'') then opt_prop parsed ''message''
               else JStr generic))"

text \<open>The hints by status code, which replace the message taken from the body.\<close>

definition status_hint :: "provider_config \<Rightarrow> nat \<Rightarrow> js \<Rightarrow> js" where
  "status_hint config status errorMessage =
     (if status = 401 then
        JStr (''Invalid API key for '' @ modelName config @ ''. Check your '' @ keyEnvVar config
              @ '' in Vercel.'')
      else if status = 403 then
        JStr (''Access denied for '' @ modelName config @ ''. Make sure billing is enabled.'')
      else if status = 429 then
        JStr (''Rate limited by '' @ modelName config
              @ ''. Wait a moment or check your usage limits.'')
      else if status = 402 then
        JStr (''Payment required for '' @ modelName config
              @ ''. Add a payment method to your account.'')
      else if status = 404 then
        JStr (''Model not found. '' @ modelName config
              @ '' may require special access or the model ID changed.'')
      else errorMessage)"

text \<open>The outer \<open>catch\<close>: log, answer 500 with the model's name and the error's message.\<close>

definition catch_block :: "string \<Rightarrow> string \<Rightarrow> effect list \<Rightarrow> js_error \<Rightarrow> result" where
  "catch_block provider model fx e =
     respond 500 [(''error'', JStr (model @ '': '' @ message e))]
       (fx @ [ConsoleError (''Error with '' @ provider @ '':'') (message e)])"

text \<open>
  \<open>config.useDynamicUrl ? config.url(process.env.GOOGLE_API_KEY) : config.url\<close>. No entry of
  the registry sets the flag on a fixed URL or leaves it off a computed one; there the call
  of a string, or the \<open>fetch\<close> of a function, throws inside the \<open>try\<close> block.
\<close>

definition resolve_url :: "env \<Rightarrow> provider_config \<Rightarrow> js_error + string" where
  "resolve_url e config =
     (case url config of
        DynamicUrl f \<Rightarrow>
          if useDynamicUrl config then Inr (f (env_text e ''GOOGLE_API_KEY''))
          else Inl (TypeError ''Failed to parse URL'')
      | StaticUrl u \<Rightarrow>
          if useDynamicUrl config then Inl (TypeError ''config.url is not a function'')
          else Inr u)"

definition try_block :: "world \<Rightarrow> provider_config \<Rightarrow> js \<Rightarrow> string \<Rightarrow> effect list \<Rightarrow> result" where
  "try_block w config prompt provider fx =
     (case resolve_url (process_env w) config of
        Inl e \<Rightarrow> catch_block provider (modelName config) fx e
      | Inr u \<Rightarrow>
          let call = \<lparr> http_url = u, http_method = ''POST'',
                       http_headers = getHeaders config (process_env w),
                       http_body = getBody config prompt \<rparr>;
              fx1 = fx @ [Outbound call]
          in case fetch w call of
               FetchFails e \<Rightarrow> catch_block provider (modelName config) fx1 e
             | FetchResponse status body \<Rightarrow>
                 if \<not> ok status then
                   (case body of
                      ReadFails e \<Rightarrow> catch_block provider (modelName config) fx1 e
                    | ReadOk errorData parsed_result \<Rightarrow>
                        respond status
                          [(''error'', status_hint config status
                              (parse_error (modelName config @ '' error ('' @ show_nat status @ '')'')
                                 errorData parsed_result))]
                          (fx1 @ [ConsoleError (provider @ '' error:'') errorData]))
                 else
                   (case body of
                      ReadFails e \<Rightarrow> catch_block provider (modelName config) fx1 e
                    | ReadOk t (Inl e) \<Rightarrow> catch_block provider (modelName config) fx1 e
                    | ReadOk t (Inr data) \<Rightarrow>
                        (case extractResponse config data of
                           Inl e \<Rightarrow> catch_block provider (modelName config) fx1 e
                         | Inr text \<Rightarrow>
                             respond 200
                               [(''response'', text), (''model'', JStr (modelName config))] fx1)))"

text \<open>\<open>!apiKey\<close>: the variable is absent or empty.\<close>

definition no_key :: "env \<Rightarrow> string \<Rightarrow> bool" where
  "no_key e name = (\<not> truthy (env_value e name))"

definition missing_key_message :: "string \<Rightarrow> string" where
  "missing_key_message name =
     ''Missing API key: '' @ name @ ''. Add it in Vercel Environment Variables.''"

text \<open>
  The provider key names a member inherited from \<open>Object.prototype\<close>: every field of
  \<open>config\<close> reads \<open>undefined\<close>, so the credential is \<open>process.env[undefined]\<close>, and inside the
  \<open>try\<close> block \<open>config.getHeaders()\<close> throws before \<open>fetch\<close> is called.
\<close>

definition inherited_config :: "world \<Rightarrow> string \<Rightarrow> effect list \<Rightarrow> result" where
  "inherited_config w provider fx =
     (if no_key (process_env w) ''undefined''
      then respond 500 [(''error'', JStr (missing_key_message ''undefined''))]
             (fx @ [CredentialCheck ''undefined''])
      else catch_block provider ''undefined'' (fx @ [CredentialCheck ''undefined''])
             (TypeError ''config.getHeaders is not a function''))"

definition handler :: "world \<Rightarrow> request \<Rightarrow> result" where
  "handler w req =
     (if req_method req \<noteq> ''POST'' then respond 405 [(''error'', JStr ''Method not allowed'')] []
      else case destructure (req_body req) of
        Inl e \<Rightarrow> \<lparr> outcome = Unhandled e, effects = [] \<rparr>
      | Inr (prompt, provider) \<Rightarrow>
          if \<not> truthy prompt \<or> \<not> truthy provider
          then respond 400 [(''error'', JStr ''Missing prompt or provider'')] []
          else
            (case js_to_string provider of
               Inl e \<Rightarrow> \<lparr> outcome = Unhandled e, effects = [] \<rparr>
             | Inr key \<Rightarrow>
                 (case providers_get key of
                    Missing \<Rightarrow> respond 400 [(''error'', JStr ''Unknown provider'')] [Lookup key]
                  | Inherited \<Rightarrow> inherited_config w key [Lookup key]
                  | Own config \<Rightarrow>
                      let name = (if useDynamicUrl config then ''GOOGLE_API_KEY''
                                  else keyEnvVar config);
                          fx = [Lookup key, CredentialCheck name]
                      in if no_key (process_env w) name
                         then respond 500
                                [(''error'', JStr (missing_key_message (keyEnvVar config)))] fx
                         else try_block w config prompt key fx)))"


section \<open>The comparison page (\<open>AICompare\<close> of \<open>components/AICompare.jsx\<close>)\<close>

text \<open>
  The component in its later version, the one with the consensus summary. First its
  registry; the \<open>icon\<close> glyphs lie outside the character range of the model and are drawn
  only.
\<close>

record ai_provider =
  ident :: string
  name :: string
  model :: string
  color :: string

definition AI_PROVIDERS :: "ai_provider list" where
  "AI_PROVIDERS =
     [\<lparr> ident = ''chatgpt'', name = ''ChatGPT'', model = ''GPT-4o'', color = ''#10a37f'' \<rparr>,
      \<lparr> ident = ''claude'', name = ''Claude'', model = ''Opus 4.5'', color = ''#d97706'' \<rparr>,
      \<lparr> ident = ''gemini'', name = ''Gemini'', model = ''2.5 Pro'', color = ''#4285f4'' \<rparr>,
      \<lparr> ident = ''grok'', name = ''Grok'', model = ''4'', color = ''#1d9bf0'' \<rparr>,
      \<lparr> ident = ''perplexity'', name = ''Perplexity'', model = ''Sonar Pro'',
        color = ''#22c55e'' \<rparr>]"

text \<open>
  A call \<open>fetch('/api/query', ...)\<close> of the page, with the closure that waits for it: the
  per-provider callback of \<open>handleSubmit\<close> (which captured the provider and the prompt),
  or \<open>generateSummary\<close> (which built the synthesis prompt).
\<close>

datatype call = ProviderCall ai_provider string | SummaryCall string

text \<open>The JSON document each call posts.\<close>

fun posted :: "call \<Rightarrow> js" where
  "posted (ProviderCall p q) = JObj [(''prompt'', JStr q), (''provider'', JStr (ident p))]"
| "posted (SummaryCall q) = JObj [(''prompt'', JStr q), (''provider'', JStr ''claude'')]"

text \<open>
  How a call ends for the page: \<open>fetch\<close> rejects, or a response arrives with a status and
  a body that \<open>res.json()\<close> rejects (the page of a gateway, say) or decodes. The endpoint
  sends JSON objects only (\<open>json_object\<close>), so decoded data is given by its properties. The
  page reads \<open>data.error\<close> and \<open>data.response\<close> inside its \<open>try\<close> blocks: a body that is the
  document \<open>null\<close> ends there like one that cannot be decoded, with the \<open>TypeError\<close> of the
  read, and any other document that is no object like the empty object.
\<close>

datatype reply = Rejected js_error | Replied nat "js_error + (string \<times> js) list"

text \<open>
  The state of the component: the six \<open>useState\<close> cells, the calls issued so far in the
  order of issue, the indices of the calls that have settled, and the lines written with
  \<open>console.error\<close>. The three objects keyed by provider are association lists, updated the
  way a spread \<open>{...prev, [k]: v}\<close> does.
\<close>

record state =
  prompt :: string
  responses :: "(string \<times> js) list"
  loading :: "(string \<times> bool) list"
  error :: "(string \<times> string) list"
  summary :: js
  summaryLoading :: bool
  calls :: "call list"
  settled :: "nat list"
  console :: "string list"

definition initial :: state where
  "initial = \<lparr> prompt = [], responses = [], loading = [], error = [], summary = JStr [],
               summaryLoading = False, calls = [], settled = [], console = [] \<rparr>"

text \<open>\<open>responses[k]\<close>, \<open>loading[k]\<close> and \<open>error[k]\<close>, the last two as the tests read them.\<close>

definition response_of :: "state \<Rightarrow> string \<Rightarrow> js" where
  "response_of s k = (case map_of (responses s) k of None \<Rightarrow> JUndefined | Some v \<Rightarrow> v)"

definition is_loading :: "state \<Rightarrow> string \<Rightarrow> bool" where
  "is_loading s k = (map_of (loading s) k = Some True)"

definition error_of :: "state \<Rightarrow> string \<Rightarrow> string" where
  "error_of s k = (case map_of (error s) k of None \<Rightarrow> [] | Some m \<Rightarrow> m)"

text \<open>\<open>prompt.trim()\<close>, over the white space of the character range.\<close>

definition is_space :: "char \<Rightarrow> bool" where
  "is_space c = (c \<in> set [CHR 0x09, CHR 0x0A, CHR 0x0B, CHR 0x0C, CHR 0x0D, CHR 0x20, CHR 0xA0])"

definition trim :: "string \<Rightarrow> string" where
  "trim t = rev (dropWhile is_space (rev (dropWhile is_space t)))"

text \<open>\<open>AI_PROVIDERS.filter((p) => responses[p.id])\<close>\<close>

definition successfulResponses :: "state \<Rightarrow> ai_provider list" where
  "successfulResponses s = filter (\<lambda>p. truthy (response_of s (ident p))) AI_PROVIDERS"

text \<open>\<open>Object.values(loading).some(Boolean)\<close>\<close>

definition anyLoading :: "state \<Rightarrow> bool" where
  "anyLoading s = list_ex (\<lambda>kv. snd kv) (loading s)"

text \<open>The synthesis prompt of \<open>generateSummary\<close>.\<close>

definition LF :: string where
  "LF = [CHR 0x0A]"

definition section_of :: "state \<Rightarrow> ai_provider \<Rightarrow> js_error + string" where
  "section_of s p =
     (case js_to_string (response_of s (ident p)) of
        Inl e \<Rightarrow> Inl e
      | Inr t \<Rightarrow> Inr (''### '' @ name p @ '' ('' @ model p @ ''):'' @ LF @ t))"

definition delimiter :: string where
  "delimiter = LF @ LF @ ''---'' @ LF @ LF"

definition responseText :: "state \<Rightarrow> js_error + string" where
  "responseText s = joined delimiter (map (section_of s) (successfulResponses s))"

definition template :: "string \<Rightarrow> string \<Rightarrow> string" where
  "template q t =
     ''You are summarizing AI responses for comparison. The user asked: '' @ [CHR 0x22]
       @ q @ [CHR 0x22] @ LF @ LF
     @ ''Here are the responses from different AI models:'' @ LF @ LF
     @ t @ LF @ LF
     @ ''Provide a brief synthesis (3-5 sentences) highlighting:'' @ LF
     @ ''1. Key points where the AIs agree'' @ LF
     @ ''2. Notable differences in their recommendations'' @ LF
     @ ''3. Any unique insights from specific models'' @ LF @ LF
     @ ''Be concise and actionable. Don'' @ [CHR 0x27]
       @ ''t list each AI separately - synthesize the information.''"

definition summaryPrompt :: "state \<Rightarrow> js_error + string" where
  "summaryPrompt s =
     (case responseText s of Inl e \<Rightarrow> Inl e | Inr t \<Rightarrow> Inr (template (prompt s) t))"

text \<open>The responses to be summarised can all be printed into the synthesis prompt.\<close>

definition printable :: "state \<Rightarrow> bool" where
  "printable s = (case responseText s of Inl e \<Rightarrow> False | Inr t \<Rightarrow> True)"

text \<open>
  \<open>generateSummary\<close> up to its \<open>await\<close>: it raises \<open>summaryLoading\<close>, builds the synthesis
  prompt and issues the call. The prompt is built before the \<open>try\<close> block: when a response
  cannot be printed the exception leaves the function there, with \<open>summaryLoading\<close> raised,
  no call issued, and nothing left to lower the flag.
\<close>

definition generateSummary :: "state \<Rightarrow> state" where
  "generateSummary s =
     (case summaryPrompt s of
        Inl e \<Rightarrow> s\<lparr> summaryLoading := True \<rparr>
      | Inr sp \<Rightarrow> s\<lparr> summaryLoading := True, calls := calls s @ [SummaryCall sp] \<rparr>)"

text \<open>
  The body of \<open>useEffect\<close>. Its dependencies are \<open>[loading, responses]\<close>: it runs after a
  render in which one of these two cells was given a new object, and after no other.
\<close>

definition effect_body :: "state \<Rightarrow> state" where
  "effect_body s =
     (if \<not> anyLoading s \<and> 2 \<le> length (successfulResponses s) \<and> \<not> truthy (summary s)
         \<and> \<not> summaryLoading s
      then generateSummary s else s)"

text \<open>\<open>handleSubmit\<close>: nothing on a blank prompt; else reset, and one call per provider.\<close>

definition handleSubmit :: "state \<Rightarrow> state" where
  "handleSubmit s =
     (if trim (prompt s) = [] then s
      else s\<lparr> responses := [], error := [], summary := JStr [],
              loading := foldl (\<lambda>acc p. AList.update (ident p) True acc) [] AI_PROVIDERS,
              calls := calls s @ map (\<lambda>p. ProviderCall p (prompt s)) AI_PROVIDERS \<rparr>)"

text \<open>
  The rest of a provider's callback, run when its call settles: \<open>try\<close> (decode, throw on a
  failure status, store the response), \<open>catch\<close> (store the error's message), \<open>finally\<close>
  (lower the loading flag). Every update is a function of the cell's latest value. The
  error thrown on a failure status is \<open>new Error(data.error || `${provider.name} failed`)\<close>,
  whose message is the argument as a string; when \<open>data.error\<close> cannot be converted, the
  \<open>TypeError\<close> of the conversion is the error caught.
\<close>

definition setError :: "ai_provider \<Rightarrow> string \<Rightarrow> state \<Rightarrow> state" where
  "setError p m s = s\<lparr> error := AList.update (ident p) m (error s) \<rparr>"

definition setResponses :: "ai_provider \<Rightarrow> js \<Rightarrow> state \<Rightarrow> state" where
  "setResponses p v s = s\<lparr> responses := AList.update (ident p) v (responses s) \<rparr>"

definition property :: "(string \<times> js) list \<Rightarrow> string \<Rightarrow> js" where
  "property data k = (case map_of data k of None \<Rightarrow> JUndefined | Some v \<Rightarrow> v)"

definition thrown_message :: "ai_provider \<Rightarrow> (string \<times> js) list \<Rightarrow> string" where
  "thrown_message p data =
     (if truthy (property data ''error'')
      then (case js_to_string (property data ''error'') of Inl e \<Rightarrow> message e | Inr t \<Rightarrow> t)
      else name p @ '' failed'')"

definition provider_settled :: "ai_provider \<Rightarrow> reply \<Rightarrow> state \<Rightarrow> state" where
  "provider_settled p r s =
     (let s1 =
        (case r of
           Rejected e \<Rightarrow> setError p (message e) s
         | Replied status (Inl e) \<Rightarrow> setError p (message e) s
         | Replied status (Inr data) \<Rightarrow>
             if \<not> ok status then setError p (thrown_message p data) s
             else setResponses p (property data ''response'') s)
      in s1\<lparr> loading := AList.update (ident p) False (loading s1) \<rparr>)"

text \<open>
  The rest of \<open>generateSummary\<close>: the body is decoded only under \<open>res.ok\<close>, a thrown error
  is logged, and \<open>finally\<close> lowers \<open>summaryLoading\<close>.
\<close>

definition summary_settled :: "reply \<Rightarrow> state \<Rightarrow> state" where
  "summary_settled r s =
     (let failed = (\<lambda>e. s\<lparr> console := console s @ [''Summary generation failed: '' @ message e] \<rparr>);
          s1 =
        (case r of
           Rejected e \<Rightarrow> failed e
         | Replied status body \<Rightarrow>
             if ok status then
               (case body of
                  Inl e \<Rightarrow> failed e
                | Inr data \<Rightarrow> s\<lparr> summary := property data ''response'' \<rparr>)
             else s)
      in s1\<lparr> summaryLoading := False \<rparr>)"

text \<open>
  What can happen to the page: the text area is edited, the Compare button is clicked
  (it is disabled on a blank prompt and while a provider is loading), Ctrl+Enter or
  Cmd+Enter is pressed in the text area (\<open>handleKeyDown\<close> calls \<open>handleSubmit\<close> whatever
  the button's state), or an issued call that has not settled yet settles. The page has
  one thread of control: an event's handler or callback runs to its end, its updates are
  rendered together, and the effect runs after that render when the event replaced
  \<open>loading\<close> or \<open>responses\<close>, all before the next event.
\<close>

datatype event = Edit string | Click | CmdEnter | Settle nat reply

definition button_disabled :: "state \<Rightarrow> bool" where
  "button_disabled s = (trim (prompt s) = [] \<or> anyLoading s)"

definition submit :: "state \<Rightarrow> state" where
  "submit s = (if trim (prompt s) = [] then s else effect_body (handleSubmit s))"

definition pending :: "state \<Rightarrow> nat \<Rightarrow> bool" where
  "pending s i = (i < length (calls s) \<and> i \<notin> set (settled s))"

definition step :: "state \<Rightarrow> event \<Rightarrow> state" where
  "step s ev =
     (case ev of
        Edit t \<Rightarrow> s\<lparr> prompt := t \<rparr>
      | Click \<Rightarrow> if button_disabled s then s else submit s
      | CmdEnter \<Rightarrow> submit s
      | Settle i r \<Rightarrow>
          if pending s i then
            (case calls s ! i of
               ProviderCall p q \<Rightarrow> effect_body (provider_settled p r (s\<lparr> settled := i # settled s \<rparr>))
             | SummaryCall q \<Rightarrow> summary_settled r (s\<lparr> settled := i # settled s \<rparr>))
          else s)"

definition run :: "state \<Rightarrow> event list \<Rightarrow> state" where
  "run s evs = foldl step s evs"

text \<open>
  What a provider's card shows below its header, and what the summary panel shows below
  its heading (the panel is absent unless \<open>summary || summaryLoading\<close>). A test
  \<open>v && element\<close> whose \<open>v\<close> is the number 0 draws that 0; the other falsy values draw
  nothing. A response and a summary are given as the values handed to React; what React
  makes of a value that is no text is not part of the model.
\<close>

datatype view =
    Thinking
  | ErrorMessage string
  | ResponseBody js
  | Placeholder
  | RawText string
  | SummaryText js
  | Synthesizing

definition provider_card :: "state \<Rightarrow> ai_provider \<Rightarrow> view list" where
  "provider_card s p =
     (if is_loading s (ident p) then [Thinking] else [])
     @ (if error_of s (ident p) \<noteq> [] then [ErrorMessage (error_of s (ident p))] else [])
     @ (if truthy (response_of s (ident p)) then [ResponseBody (response_of s (ident p))]
        else if response_of s (ident p) = JNum ''0'' then [RawText ''0''] else [])
     @ (if \<not> is_loading s (ident p) \<and> error_of s (ident p) = []
           \<and> \<not> truthy (response_of s (ident p))
        then [Placeholder] else [])"

definition summary_panel :: "state \<Rightarrow> view list" where
  "summary_panel s =
     (if truthy (summary s) then [SummaryText (summary s)]
      else if summaryLoading s then [Synthesizing]
      else [])"

section \<open>Runs of the page\<close>

text \<open>
  The page posts its calls to the endpoint: what \<open>handler\<close> answers is what the page's
  \<open>fetch\<close> receives (when nothing between the two fails).
\<close>

definition served :: "world \<Rightarrow> call \<Rightarrow> reply option" where
  "served w c =
     (case outcome (handler w \<lparr> req_method = ''POST'', req_body = posted c \<rparr>) of
        Responded status (JObj data) \<Rightarrow> Some (Replied status (Inr data))
      | _ \<Rightarrow> None)"

definition is_edit :: "event \<Rightarrow> bool" where
  "is_edit ev = (case ev of Edit t \<Rightarrow> True | _ \<Rightarrow> False)"

definition is_submit :: "event \<Rightarrow> bool" where
  "is_submit ev = (ev = Click \<or> ev = CmdEnter)"

definition is_summary_call :: "call \<Rightarrow> bool" where
  "is_summary_call c = (case c of SummaryCall q \<Rightarrow> True | ProviderCall p q \<Rightarrow> False)"

text \<open>The number of summary calls among the calls issued from index \<open>n\<close> on.\<close>

definition summary_calls_since :: "nat \<Rightarrow> state \<Rightarrow> nat" where
  "summary_calls_since n s = length (filter is_summary_call (drop n (calls s)))"

text \<open>Nothing is in flight: every call issued has settled, and no summary is loading.\<close>

definition idle :: "state \<Rightarrow> bool" where
  "idle s = (set (settled s) = {..<length (calls s)} \<and> \<not> summaryLoading s)"

text \<open>
  What holds throughout a run that starts by a submission in the idle state \<open>s0\<close> and is
  followed by no other submission: the calls issued since are the five provider calls and
  then \<open>extra\<close>, which is empty or one summary call; a provider's loading flag is up exactly
  while its call has not settled; the summary call has been issued exactly if no provider
  is loading, at least two responses are truthy and they can be printed; and
  \<open>summaryLoading\<close> is up exactly while the summary call has not settled, or, no call
  having been issued, from the moment the responses were found not to print.
\<close>

definition run_invariant :: "state \<Rightarrow> call list \<Rightarrow> state \<Rightarrow> bool" where
  "run_invariant s0 extra s =
     (calls s = calls s0 @ map (\<lambda>p. ProviderCall p (prompt s0)) AI_PROVIDERS @ extra
      \<and> (extra = [] \<or> (\<exists>sp. extra = [SummaryCall sp]))
      \<and> {..<length (calls s0)} \<subseteq> set (settled s)
      \<and> set (settled s) \<subseteq> {..<length (calls s0) + length AI_PROVIDERS + length extra}
      \<and> map fst (loading s) = map ident AI_PROVIDERS
      \<and> (\<forall>j < length AI_PROVIDERS.
            map_of (loading s) (ident (AI_PROVIDERS ! j))
              = Some (length (calls s0) + j \<notin> set (settled s)))
      \<and> (extra = [] \<longrightarrow> \<not> truthy (summary s)
            \<and> (summaryLoading s \<longleftrightarrow>
                  \<not> anyLoading s \<and> 2 \<le> length (successfulResponses s) \<and> \<not> printable s)
            \<and> \<not> (\<not> anyLoading s \<and> 2 \<le> length (successfulResponses s) \<and> printable s))
      \<and> (extra \<noteq> [] \<longrightarrow> \<not> anyLoading s \<and> 2 \<le> length (successfulResponses s) \<and> printable s
            \<and> (summaryLoading s \<longleftrightarrow>
                  length (calls s0) + length AI_PROVIDERS \<notin> set (settled s))))"

subsection \<open>Scenarios\<close>

text \<open>
  Three ways a call can end: the endpoint answers with a text; it answers 500 because
  \<open>ANTHROPIC_API_KEY\<close> is missing; \<open>fetch\<close> rejects.
\<close>

definition answered :: "string \<Rightarrow> string \<Rightarrow> reply" where
  "answered m t = Replied 200 (Inr [(''response'', JStr t), (''model'', JStr m)])"

definition refused :: reply where
  "refused = Replied 500 (Inr [(''error'',
     JStr ''Missing API key: ANTHROPIC_API_KEY. Add it in Vercel Environment Variables.'')])"

definition unreachable :: reply where
  "unreachable = Rejected (TypeError ''Failed to fetch'')"

text \<open>
  A prompt is typed and submitted; ChatGPT and Gemini answer, Claude is refused, Grok and
  Perplexity are not reached. The summary call that follows has index 5.
\<close>

definition two_of_five :: "event list" where
  "two_of_five =
     [Edit ''Explain quicksort'', Click,
      Settle 0 (answered ''GPT-5.2'' ''It partitions.''), Settle 1 refused,
      Settle 2 (answered ''Gemini 3 Pro'' ''It recurses.''),
      Settle 3 unreachable, Settle 4 unreachable]"

text \<open>
  The same, and then the prompt is submitted again with the button while the summary call
  is still in flight; the providers of the second run (calls 6 to 10) settle, and only then
  the summary call is refused.
\<close>

definition resubmitted_during_summary :: "event list" where
  "resubmitted_during_summary =
     two_of_five @
     [Click,
      Settle 6 (answered ''GPT-5.2'' ''It partitions.''), Settle 7 refused,
      Settle 8 (answered ''Gemini 3 Pro'' ''It recurses.''),
      Settle 9 unreachable, Settle 10 unreachable,
      Settle 5 refused]"

text \<open>
  A prompt is submitted, then another one is typed and submitted with Ctrl+Enter while the
  five calls of the first submission (indices 0 to 4) are in flight.
\<close>

definition superseded :: "event list" where
  "superseded =
     [Edit ''Explain quicksort'', Click, Edit ''Explain mergesort'', CmdEnter]"

text \<open>
  The same, and then the five calls of the first submission settle, which issues a summary
  call (index 10); it is refused; then ChatGPT's call of the second submission (index 5)
  settles, which issues a summary call again (index 11).
\<close>

definition fired_twice :: "event list" where
  "fired_twice =
     superseded @
     [Settle 0 (answered ''GPT-5.2'' ''It partitions.''), Settle 1 refused,
      Settle 2 (answered ''Gemini 3 Pro'' ''It recurses.''),
      Settle 3 unreachable, Settle 4 unreachable,
      Settle 10 refused,
      Settle 5 (answered ''GPT-5.2'' ''It merges.'')]"

text \<open>A prompt is submitted, and the text area is edited before the providers settle.\<close>

definition edited_while_loading :: "event list" where
  "edited_while_loading =
     [Edit ''Explain quicksort'', Click, Edit ''Explain mergesort'',
      Settle 0 (answered ''GPT-5.2'' ''It partitions.''), Settle 1 refused,
      Settle 2 (answered ''Gemini 3 Pro'' ''It recurses.''),
      Settle 3 unreachable, Settle 4 unreachable]"

text \<open>An environment that holds every credential but Anthropic's, and a silent network.\<close>

definition no_anthropic_key :: world where
  "no_anthropic_key = \<lparr>
     process_env = [''OPENAI_API_KEY'' \<mapsto> ''sk-1'', ''GOOGLE_API_KEY'' \<mapsto> ''g-1'',
                    ''XAI_API_KEY'' \<mapsto> ''xai-1'', ''PERPLEXITY_API_KEY'' \<mapsto> ''pplx-1''],
     fetch = (\<lambda>c. FetchFails (TypeError ''fetch failed'')) \<rparr>"

text \<open>
  An endpoint whose provider answers 200 without a \<open>content\<close>, and what the page receives
  from it: a success without a \<open>response\<close>.
\<close>

definition without_content :: world where
  \<open>without_content = \<lparr>
     process_env = [''OPENAI_API_KEY'' \<mapsto> ''sk-1''],
     fetch = (\<lambda>c. FetchResponse 200
       (ReadOk ''{"choices":[{"message":{"role":"assistant"}}]}''
          (Inr (JObj [(''choices'',
             JArr [JObj [(''message'', JObj [(''role'', JStr ''assistant'')])]])])))) \<rparr>\<close>

definition no_text :: reply where
  "no_text = Replied 200 (Inr [(''model'', JStr ''GPT-5.2'')])"

text \<open>A prompt is submitted, and ChatGPT's call is answered without a text.\<close>

definition answered_without_text :: "event list" where
  "answered_without_text = [Edit ''Explain quicksort'', Click, Settle 0 no_text]"

text \<open>
  A prompt is submitted and then another one, as in \<open>superseded\<close>; ChatGPT's call of the
  first submission (index 0) is answered, and then its call of the second submission
  (index 5) fails.
\<close>

definition late_text_then_failure :: "event list" where
  "late_text_then_failure =
     superseded @ [Settle 0 (answered ''GPT-5.2'' ''It partitions.''), Settle 5 unreachable]"

text \<open>
  The same two submissions; four of the five calls of the first one have settled, two of
  them with a text, and the calls of the second are all in flight.
\<close>

definition stale_settlements :: "event list" where
  "stale_settlements =
     superseded @
     [Settle 0 (answered ''GPT-5.2'' ''It partitions.''), Settle 1 refused,
      Settle 2 (answered ''Gemini 3 Pro'' ''It recurses.''), Settle 3 unreachable]"

text \<open>
  A run in which two providers answer with an object that has a \<open>toString\<close> property of
  its own; the others are not reached.
\<close>

definition unprintable :: reply where
  "unprintable = Replied 200 (Inr [(''response'', JObj [(''toString'', JStr ''x'')])])"

definition two_unprintable :: "event list" where
  "two_unprintable =
     [Edit ''Explain quicksort'', Click,
      Settle 0 unprintable, Settle 1 unprintable,
      Settle 2 unreachable, Settle 3 unreachable, Settle 4 unreachable]"

section \<open>Properties of the query endpoint\<close>

subsection \<open>The registry\<close>

lemma registry_cases:
  "map_of PROVIDERS k = Some config \<Longrightarrow>
     config = chatgpt \<or> config = claude \<or> config = gemini \<or> config = grok \<or> config = perplexity"
  by (auto simp: PROVIDERS_def split: if_splits)

lemma registry_names:
  "map_of PROVIDERS k = Some config \<Longrightarrow>
     k \<in> {''chatgpt'', ''claude'', ''gemini'', ''grok'', ''perplexity''}"
  by (auto simp: PROVIDERS_def split: if_splits)

text \<open>The credential that is checked is the one the descriptor names, for Gemini too.\<close>

lemma registry_key:
  "map_of PROVIDERS k = Some config \<Longrightarrow>
     (if useDynamicUrl config then ''GOOGLE_API_KEY'' else keyEnvVar config) = keyEnvVar config"
  by (drule registry_cases) (auto simp: chatgpt_def claude_def gemini_def grok_def perplexity_def)

lemma registry_url:
  "map_of PROVIDERS k = Some config \<Longrightarrow> \<exists>u. resolve_url e config = Inr u"
  by (drule registry_cases)
     (auto simp: resolve_url_def chatgpt_def claude_def gemini_def grok_def perplexity_def)

text \<open>A value whose string names a registered provider is truthy.\<close>

lemma registered_truthy:
  assumes "js_to_string v = Inr k" and "map_of PROVIDERS k = Some config"
  shows "truthy v"
proof (cases v)
  case (JBool b)
  with assms(1) registry_names [OF assms(2)] show ?thesis by (cases b) auto
next
  case (JNum t)
  with assms(1) registry_names [OF assms(2)] show ?thesis by auto
next
  case (JStr t)
  with assms(1) registry_names [OF assms(2)] show ?thesis by auto
qed (use assms(1) registry_names [OF assms(2)] in auto)

text \<open>A value that cannot be converted to a string is an array or an object, and truthy.\<close>

lemma unconvertible_truthy: "js_to_string v = Inl e \<Longrightarrow> truthy v"
  by (cases v) auto

text \<open>
  Past the argument checks, a request that names a registered provider is answered by the
  credential check and, when the credential is there, by the \<open>try\<close> block.
\<close>

lemma handler_registered:
  assumes "req_method req = ''POST''"
    and "\<not> nullish (req_body req)"
    and "truthy (opt_prop (req_body req) ''prompt'')"
    and "js_to_string (opt_prop (req_body req) ''provider'') = Inr k"
    and "map_of PROVIDERS k = Some config"
  shows "handler w req =
     (let fx = [Lookup k, CredentialCheck (keyEnvVar config)]
      in if no_key (process_env w) (keyEnvVar config)
         then respond 500 [(''error'', JStr (missing_key_message (keyEnvVar config)))] fx
         else try_block w config (opt_prop (req_body req) ''prompt'') k fx)"
  using assms registered_truthy [OF assms(4,5)] registry_key [OF assms(5)]
  by (simp add: handler_def destructure_def providers_get_def Let_def)

subsection \<open>Every fault inside the \<open>try\<close> block becomes an answer\<close>

lemma try_block_responds: "\<exists>st b. outcome (try_block w config q pv fx) = Responded st b"
  by (auto simp: try_block_def Let_def respond_def catch_block_def
      split: sum.splits fetch_result.splits body_read.splits)

text \<open>
  Two steps stand before the \<open>try\<close> block and let an exception out of the handler: the
  destructuring of a missing body, and the conversion of the provider to a property key
  in \<open>PROVIDERS[provider]\<close>. Every other request is answered.
\<close>

lemma handler_responds:
  assumes "req_method req \<noteq> ''POST''
      \<or> (\<not> nullish (req_body req)
          \<and> (\<not> truthy (opt_prop (req_body req) ''prompt'')
              \<or> (\<exists>k. js_to_string (opt_prop (req_body req) ''provider'') = Inr k)))"
  shows "\<exists>st b. outcome (handler w req) = Responded st b"
  using assms try_block_responds
  by (auto simp: handler_def destructure_def respond_def inherited_config_def catch_block_def
      Let_def split: lookup.splits)

lemma handler_throws:
  assumes "req_method req = ''POST''"
    and "nullish (req_body req)
      \<or> (truthy (opt_prop (req_body req) ''prompt'')
          \<and> (\<exists>e. js_to_string (opt_prop (req_body req) ''provider'') = Inl e))"
  shows "\<exists>e. outcome (handler w req) = Unhandled e \<and> effects (handler w req) = []"
  using assms unconvertible_truthy
  by (auto simp: handler_def destructure_def)

subsection \<open>The message of a failed provider\<close>

lemma parse_error_defined: "parse_error g t parsed \<noteq> JUndefined"
  by (auto simp: parse_error_def Let_def split: sum.splits)

lemma status_hint_defined: "m \<noteq> JUndefined \<Longrightarrow> status_hint config status m \<noteq> JUndefined"
  by (simp add: status_hint_def)

lemma parse_error_cases:
  "(\<exists>p. parsed = Inr p \<and> \<not> nullish p \<and> truthy (opt_prop (opt_prop p ''error'') ''message'')
        \<and> parse_error g t parsed = opt_prop (opt_prop p ''error'') ''message'')
   \<or> (\<exists>p. parsed = Inr p \<and> \<not> nullish p
        \<and> \<not> truthy (opt_prop (opt_prop p ''error'') ''message'')
        \<and> truthy (opt_prop p ''message'')
        \<and> parse_error g t parsed = opt_prop p ''message'')
   \<or> (\<exists>p. parsed = Inr p \<and> \<not> nullish p
        \<and> \<not> truthy (opt_prop (opt_prop p ''error'') ''message'')
        \<and> \<not> truthy (opt_prop p ''message'')
        \<and> parse_error g t parsed = JStr g)
   \<or> (((\<exists>e. parsed = Inl e) \<or> (\<exists>p. parsed = Inr p \<and> nullish p)) \<and> length t < 200
        \<and> parse_error g t parsed = JStr t)
   \<or> (((\<exists>e. parsed = Inl e) \<or> (\<exists>p. parsed = Inr p \<and> nullish p)) \<and> 200 \<le> length t
        \<and> parse_error g t parsed = JStr g)"
proof (cases parsed)
  case (Inl e)
  then show ?thesis by (simp add: parse_error_def)
next
  case (Inr p)
  then show ?thesis
    by (cases p) (auto simp: parse_error_def opt_prop_def Let_def)
qed

lemma try_block_failure_status:
  assumes "map_of PROVIDERS k = Some config"
    and "\<And>c. fetch w c = FetchResponse status (ReadOk errorData parsed)"
    and "\<not> ok status"
  shows "outcome (try_block w config q pv fx) =
     Responded status (JObj [(''error'', status_hint config status
        (parse_error (modelName config @ '' error ('' @ show_nat status @ '')'') errorData parsed))])"
proof -
  obtain u where "resolve_url (process_env w) config = Inr u"
    using registry_url [OF assms(1)] by blast
  then show ?thesis
    using assms(2,3) status_hint_defined [OF parse_error_defined]
    by (simp add: try_block_def Let_def respond_def json_object_def)
qed

subsection \<open>What Gemini's extractor checks and the other extractors do not\<close>

lemma extract_gemini_truthy: "extract_gemini data = Inr v \<Longrightarrow> truthy v"
  by (auto simp: extract_gemini_def then_prop_def then_first_def opt_prop_def opt_first_def
      split: sum.splits if_splits)

lemma gemini_missing_text_answers_500:
  \<open>outcome (handler
      \<lparr> process_env = [''GOOGLE_API_KEY'' \<mapsto> ''k''],
        fetch = (\<lambda>c. FetchResponse 200
          (ReadOk ''{"candidates":[{"content":{"parts":[{}]}}]}''
             (Inr (JObj [(''candidates'',
                JArr [JObj [(''content'', JObj [(''parts'', JArr [JObj []])])]])])))) \<rparr>
      \<lparr> req_method = ''POST'',
        req_body = JObj [(''prompt'', JStr ''hi''), (''provider'', JStr ''gemini'')] \<rparr>)
     = Responded 500 (JObj [(''error'', JStr ''Gemini 3 Pro: Unexpected Gemini response format'')])\<close>
  by (simp add: handler_def destructure_def opt_prop_def opt_first_def providers_get_def PROVIDERS_def
      gemini_def no_key_def env_value_def try_block_def resolve_url_def ok_def
      extract_gemini_def then_prop_def then_first_def respond_def json_object_def Let_def
      catch_block_def)

subsection \<open>Claims about the endpoint\<close>

text \<open>
  Claim C10. A request whose method is not POST is answered with status 405 and the body
  \<open>{error: 'Method not allowed'}\<close>, and the handler does nothing else: no provider
  lookup, no credential check, no outbound call, no log line.
\<close>

theorem method_not_allowed:
  "req_method req \<noteq> ''POST'' \<Longrightarrow>
     handler w req = \<lparr> outcome = Responded 405 (JObj [(''error'', JStr ''Method not allowed'')]),
                       effects = [] \<rparr>"
  by (simp add: handler_def respond_def json_object_def)

theorem method_not_allowed_witness:
  "req_method \<lparr> req_method = ''GET'', req_body = JUndefined \<rparr> \<noteq> ''POST''
   \<and> handler \<lparr> process_env = Map.empty, fetch = (\<lambda>c. FetchFails (TypeError ''fetch failed'')) \<rparr>
        \<lparr> req_method = ''GET'', req_body = JUndefined \<rparr>
     = \<lparr> outcome = Responded 405 (JObj [(''error'', JStr ''Method not allowed'')]), effects = [] \<rparr>"
  using method_not_allowed [of "\<lparr> req_method = ''GET'', req_body = JUndefined \<rparr>"]
  by simp

text \<open>
  Claim C3. A POST request with a prompt that names a registered provider whose credential
  variable is absent from the environment is answered with status 500 and a message that
  names the variable, and no outbound call is made.
\<close>

theorem missing_credential:
  assumes "req_method req = ''POST''"
    and "\<not> nullish (req_body req)"
    and "truthy (opt_prop (req_body req) ''prompt'')"
    and "js_to_string (opt_prop (req_body req) ''provider'') = Inr k"
    and "map_of PROVIDERS k = Some config"
    and "process_env w (keyEnvVar config) = None"
  shows "outcome (handler w req) =
           Responded 500 (JObj [(''error'', JStr (''Missing API key: '' @ keyEnvVar config
               @ ''. Add it in Vercel Environment Variables.''))])
         \<and> (\<forall>c. Outbound c \<notin> set (effects (handler w req)))"
  using assms(6)
  by (simp add: handler_registered [OF assms(1-5)] no_key_def env_value_def respond_def
      json_object_def missing_key_message_def)

theorem missing_credential_witness:
  "req_method \<lparr> req_method = ''POST'',
       req_body = JObj [(''prompt'', JStr ''hi''), (''provider'', JStr ''grok'')] \<rparr> = ''POST''
   \<and> \<not> nullish (JObj [(''prompt'', JStr ''hi''), (''provider'', JStr ''grok'')])
   \<and> truthy (opt_prop (JObj [(''prompt'', JStr ''hi''), (''provider'', JStr ''grok'')]) ''prompt'')
   \<and> js_to_string (opt_prop (JObj [(''prompt'', JStr ''hi''), (''provider'', JStr ''grok'')])
        ''provider'') = Inr ''grok''
   \<and> map_of PROVIDERS ''grok'' = Some grok
   \<and> Map.empty (keyEnvVar grok) = (None :: string option)
   \<and> outcome (handler \<lparr> process_env = Map.empty, fetch = (\<lambda>c. FetchResponse 200 (ReadOk [] (Inr JNull))) \<rparr>
        \<lparr> req_method = ''POST'',
          req_body = JObj [(''prompt'', JStr ''hi''), (''provider'', JStr ''grok'')] \<rparr>)
       = Responded 500 (JObj [(''error'',
           JStr ''Missing API key: XAI_API_KEY. Add it in Vercel Environment Variables.'')])
   \<and> (\<forall>c. Outbound c \<notin> set (effects (handler
          \<lparr> process_env = Map.empty, fetch = (\<lambda>c. FetchResponse 200 (ReadOk [] (Inr JNull))) \<rparr>
          \<lparr> req_method = ''POST'',
            req_body = JObj [(''prompt'', JStr ''hi''), (''provider'', JStr ''grok'')] \<rparr>)))"
proof -
  have reg: "map_of PROVIDERS ''grok'' = Some grok"
    by (simp add: PROVIDERS_def)
  have key: "keyEnvVar grok = ''XAI_API_KEY''"
    by (simp add: grok_def)
  show ?thesis
    using missing_credential [where req =
        "\<lparr> req_method = ''POST'',
           req_body = JObj [(''prompt'', JStr ''hi''), (''provider'', JStr ''grok'')] \<rparr>"
        and k = "''grok''" and config = grok and w =
        "\<lparr> process_env = Map.empty, fetch = (\<lambda>c. FetchResponse 200 (ReadOk [] (Inr JNull))) \<rparr>"]
      reg
    by (simp add: key opt_prop_def)
qed

text \<open>
  Claim C4. When a registered provider, its credential present, answers with a status
  outside 200 to 299 and a readable body, the endpoint answers with that same status and
  \<open>{error: msg}\<close>, where \<open>msg\<close> is: for 401 a hint that names the model and the credential
  variable; for 403, 429, 402 and 404 the billing, rate-limit, payment and model-not-found
  hints; and for any other status the \<open>error.message\<close> of the decoded body if truthy, else
  its \<open>message\<close> if truthy, else (the body is no JSON, or is \<open>null\<close>) the raw body if shorter
  than 200 characters, else the generic \<open><model> error (<status>)\<close>.
\<close>

theorem provider_failure_classified:
  assumes "req_method req = ''POST''"
    and "\<not> nullish (req_body req)"
    and "truthy (opt_prop (req_body req) ''prompt'')"
    and "js_to_string (opt_prop (req_body req) ''provider'') = Inr k"
    and "map_of PROVIDERS k = Some config"
    and "\<not> no_key (process_env w) (keyEnvVar config)"
    and "\<And>c. fetch w c = FetchResponse status (ReadOk errorData parsed)"
    and "\<not> ok status"
  shows "\<exists>msg. outcome (handler w req) = Responded status (JObj [(''error'', msg)])
     \<and> (status = 401 \<longrightarrow> msg = JStr (''Invalid API key for '' @ modelName config
            @ ''. Check your '' @ keyEnvVar config @ '' in Vercel.''))
     \<and> (status = 403 \<longrightarrow> msg = JStr (''Access denied for '' @ modelName config
            @ ''. Make sure billing is enabled.''))
     \<and> (status = 429 \<longrightarrow> msg = JStr (''Rate limited by '' @ modelName config
            @ ''. Wait a moment or check your usage limits.''))
     \<and> (status = 402 \<longrightarrow> msg = JStr (''Payment required for '' @ modelName config
            @ ''. Add a payment method to your account.''))
     \<and> (status = 404 \<longrightarrow> msg = JStr (''Model not found. '' @ modelName config
            @ '' may require special access or the model ID changed.''))
     \<and> (status \<notin> {401, 403, 429, 402, 404} \<longrightarrow>
          (\<exists>p. parsed = Inr p \<and> \<not> nullish p
               \<and> truthy (opt_prop (opt_prop p ''error'') ''message'')
               \<and> msg = opt_prop (opt_prop p ''error'') ''message'')
        \<or> (\<exists>p. parsed = Inr p \<and> \<not> nullish p
               \<and> \<not> truthy (opt_prop (opt_prop p ''error'') ''message'')
               \<and> truthy (opt_prop p ''message'')
               \<and> msg = opt_prop p ''message'')
        \<or> (\<exists>p. parsed = Inr p \<and> \<not> nullish p
               \<and> \<not> truthy (opt_prop (opt_prop p ''error'') ''message'')
               \<and> \<not> truthy (opt_prop p ''message'')
               \<and> msg = JStr (modelName config @ '' error ('' @ show_nat status @ '')''))
        \<or> (((\<exists>e. parsed = Inl e) \<or> (\<exists>p. parsed = Inr p \<and> nullish p))
               \<and> length errorData < 200 \<and> msg = JStr errorData)
        \<or> (((\<exists>e. parsed = Inl e) \<or> (\<exists>p. parsed = Inr p \<and> nullish p))
               \<and> 200 \<le> length errorData
               \<and> msg = JStr (modelName config @ '' error ('' @ show_nat status @ '')'')))"
proof -
  let ?generic = "modelName config @ '' error ('' @ show_nat status @ '')''"
  let ?msg = "status_hint config status (parse_error ?generic errorData parsed)"
  have out: "outcome (handler w req) = Responded status (JObj [(''error'', ?msg)])"
    using assms(6) try_block_failure_status [OF assms(5) assms(7) assms(8)]
    by (simp add: handler_registered [OF assms(1-5)] Let_def)
  have other: "status \<notin> {401, 403, 429, 402, 404} \<Longrightarrow> ?msg = parse_error ?generic errorData parsed"
    by (simp add: status_hint_def)
  show ?thesis
  proof (intro exI [of _ ?msg] conjI impI)
    show "outcome (handler w req) = Responded status (JObj [(''error'', ?msg)])"
      by (rule out)
  next
    assume "status \<notin> {401, 403, 429, 402, 404}"
    then show "(\<exists>p. parsed = Inr p \<and> \<not> nullish p
               \<and> truthy (opt_prop (opt_prop p ''error'') ''message'')
               \<and> ?msg = opt_prop (opt_prop p ''error'') ''message'')
        \<or> (\<exists>p. parsed = Inr p \<and> \<not> nullish p
               \<and> \<not> truthy (opt_prop (opt_prop p ''error'') ''message'')
               \<and> truthy (opt_prop p ''message'')
               \<and> ?msg = opt_prop p ''message'')
        \<or> (\<exists>p. parsed = Inr p \<and> \<not> nullish p
               \<and> \<not> truthy (opt_prop (opt_prop p ''error'') ''message'')
               \<and> \<not> truthy (opt_prop p ''message'')
               \<and> ?msg = JStr ?generic)
        \<or> (((\<exists>e. parsed = Inl e) \<or> (\<exists>p. parsed = Inr p \<and> nullish p))
               \<and> length errorData < 200 \<and> ?msg = JStr errorData)
        \<or> (((\<exists>e. parsed = Inl e) \<or> (\<exists>p. parsed = Inr p \<and> nullish p))
               \<and> 200 \<le> length errorData \<and> ?msg = JStr ?generic)"
      using parse_error_cases [of parsed ?generic errorData] other by simp
  qed (simp_all add: status_hint_def)
qed

theorem provider_failure_classified_witness:
  "outcome (handler
      \<lparr> process_env = [''OPENAI_API_KEY'' \<mapsto> ''k''],
        fetch = (\<lambda>c. FetchResponse 401 (ReadOk ''denied'' (Inl (SyntaxError ''Unexpected token d'')))) \<rparr>
      \<lparr> req_method = ''POST'',
        req_body = JObj [(''prompt'', JStr ''hi''), (''provider'', JStr ''chatgpt'')] \<rparr>)
     = Responded 401 (JObj [(''error'',
         JStr ''Invalid API key for GPT-5.2. Check your OPENAI_API_KEY in Vercel.'')])
   \<and> outcome (handler
      \<lparr> process_env = [''OPENAI_API_KEY'' \<mapsto> ''k''],
        fetch = (\<lambda>c. FetchResponse 503 (ReadOk ''busy'' (Inl (SyntaxError ''Unexpected token b'')))) \<rparr>
      \<lparr> req_method = ''POST'',
        req_body = JObj [(''prompt'', JStr ''hi''), (''provider'', JStr ''chatgpt'')] \<rparr>)
     = Responded 503 (JObj [(''error'', JStr ''busy'')])"
proof -
  let ?req = "\<lparr> req_method = ''POST'',
        req_body = JObj [(''prompt'', JStr ''hi''), (''provider'', JStr ''chatgpt'')] \<rparr>"
  let ?w = "\<lambda>status t e. \<lparr> process_env = [''OPENAI_API_KEY'' \<mapsto> ''k''],
        fetch = (\<lambda>c. FetchResponse status (ReadOk t (Inl (SyntaxError e)))) \<rparr>"
  have reg: "js_to_string (opt_prop (req_body ?req) ''provider'') = Inr ''chatgpt''"
    "map_of PROVIDERS ''chatgpt'' = Some chatgpt"
    by (simp_all add: PROVIDERS_def opt_prop_def)
  have fields: "keyEnvVar chatgpt = ''OPENAI_API_KEY''" "modelName chatgpt = ''GPT-5.2''"
    by (simp_all add: chatgpt_def)
  have key: "\<not> no_key (process_env (?w status t e)) (keyEnvVar chatgpt)" for status t e
    by (simp add: no_key_def env_value_def fields)
  have pre: "req_method ?req = ''POST''" "\<not> nullish (req_body ?req)"
    "truthy (opt_prop (req_body ?req) ''prompt'')"
    by (simp_all add: opt_prop_def)
  have a: "outcome (handler (?w 401 ''denied'' ''Unexpected token d'') ?req)
     = Responded 401 (JObj [(''error'',
         JStr ''Invalid API key for GPT-5.2. Check your OPENAI_API_KEY in Vercel.'')])"
    using provider_failure_classified [where req = ?req and config = chatgpt
        and k = "''chatgpt''" and w = "?w 401 ''denied'' ''Unexpected token d''" and status = 401
        and errorData = "''denied''" and parsed = "Inl (SyntaxError ''Unexpected token d'')",
        OF pre reg key]
    by (auto simp: ok_def fields)
  have b: "outcome (handler (?w 503 ''busy'' ''Unexpected token b'') ?req)
     = Responded 503 (JObj [(''error'', JStr ''busy'')])"
    using provider_failure_classified [where req = ?req and config = chatgpt
        and k = "''chatgpt''" and w = "?w 503 ''busy'' ''Unexpected token b''" and status = 503
        and errorData = "''busy''" and parsed = "Inl (SyntaxError ''Unexpected token b'')",
        OF pre reg key]
    by (auto simp: ok_def fields)
  from a b show ?thesis by simp
qed

text \<open>
  Claim C5. A provider's 200 response whose decoded body lacks the field the extractor
  reads should be answered as a failure. For the four extractors that read the path without
  testing it, this holds only while an inner step of the path is missing (the read throws
  and the \<open>catch\<close> block answers 500). When the last field alone is missing nothing
  throws: ChatGPT's body \<open>{"choices":[{"message":{"role":"assistant"}}]}\<close> is answered with
  status 200 and a body that has a \<open>model\<close> and no \<open>response\<close>. Gemini's extractor tests the
  whole path and answers 500 there (\<open>gemini_missing_text_answers_500\<close>).
\<close>

theorem chatgpt_missing_content_answers_200:
  \<open>outcome (handler
      \<lparr> process_env = [''OPENAI_API_KEY'' \<mapsto> ''k''],
        fetch = (\<lambda>c. FetchResponse 200
          (ReadOk ''{"choices":[{"message":{"role":"assistant"}}]}''
             (Inr (JObj [(''choices'',
                JArr [JObj [(''message'', JObj [(''role'', JStr ''assistant'')])]])])))) \<rparr>
      \<lparr> req_method = ''POST'',
        req_body = JObj [(''prompt'', JStr ''hi''), (''provider'', JStr ''chatgpt'')] \<rparr>)
     = Responded 200 (JObj [(''model'', JStr ''GPT-5.2'')])\<close>
  by (simp add: handler_def destructure_def opt_prop_def providers_get_def PROVIDERS_def
      chatgpt_def no_key_def env_value_def try_block_def resolve_url_def ok_def
      extract_choices_def then_prop_def then_first_def respond_def json_object_def Let_def)

theorem chatgpt_missing_content_witness:
  \<open>(case outcome (handler
      \<lparr> process_env = [''OPENAI_API_KEY'' \<mapsto> ''k''],
        fetch = (\<lambda>c. FetchResponse 200
          (ReadOk ''{"choices":[{"message":{"role":"assistant"}}]}''
             (Inr (JObj [(''choices'',
                JArr [JObj [(''message'', JObj [(''role'', JStr ''assistant'')])]])])))) \<rparr>
      \<lparr> req_method = ''POST'',
        req_body = JObj [(''prompt'', JStr ''hi''), (''provider'', JStr ''chatgpt'')] \<rparr>) of
      Responded status b \<Rightarrow> ok status \<and> get_prop b ''response'' = Inr JUndefined
    | Unhandled e \<Rightarrow> False)\<close>
  using chatgpt_missing_content_answers_200
  by (simp add: ok_def)


section \<open>Properties of the comparison page\<close>

subsection \<open>What each step changes\<close>

text \<open>The effect also runs when the component is mounted, and does nothing then.\<close>

lemma effect_body_initial: "effect_body initial = initial"
  by (simp add: effect_body_def initial_def anyLoading_def successfulResponses_def
      AI_PROVIDERS_def response_of_def)

lemma effect_body_fields [simp]:
  "responses (effect_body s) = responses s"
  "loading (effect_body s) = loading s"
  "error (effect_body s) = error s"
  "summary (effect_body s) = summary s"
  "prompt (effect_body s) = prompt s"
  "settled (effect_body s) = settled s"
  "console (effect_body s) = console s"
  by (simp_all add: effect_body_def generateSummary_def split: sum.splits)

lemma provider_settled_fields [simp]:
  "loading (provider_settled p r s) = AList.update (ident p) False (loading s)"
  "summary (provider_settled p r s) = summary s"
  "summaryLoading (provider_settled p r s) = summaryLoading s"
  "prompt (provider_settled p r s) = prompt s"
  "calls (provider_settled p r s) = calls s"
  "settled (provider_settled p r s) = settled s"
  "console (provider_settled p r s) = console s"
  by (simp_all add: provider_settled_def setError_def setResponses_def Let_def
      split: reply.splits sum.splits)

lemma summary_settled_fields [simp]:
  "responses (summary_settled r s) = responses s"
  "loading (summary_settled r s) = loading s"
  "error (summary_settled r s) = error s"
  "prompt (summary_settled r s) = prompt s"
  "calls (summary_settled r s) = calls s"
  "settled (summary_settled r s) = settled s"
  "summaryLoading (summary_settled r s) = False"
  by (simp_all add: summary_settled_def Let_def split: reply.splits sum.splits)

lemma provider_settled_writes_one:
  "(\<exists>v. responses (provider_settled p r s) = AList.update (ident p) v (responses s)
        \<and> error (provider_settled p r s) = error s)
   \<or> (\<exists>m. error (provider_settled p r s) = AList.update (ident p) m (error s)
        \<and> responses (provider_settled p r s) = responses s)"
  by (cases r rule: reply.exhaust; auto simp: provider_settled_def setError_def setResponses_def Let_def
      split: sum.splits)

lemma provider_settled_ok:
  "ok status \<Longrightarrow>
     responses (provider_settled p (Replied status (Inr data)) s)
       = AList.update (ident p) (property data ''response'') (responses s)
     \<and> error (provider_settled p (Replied status (Inr data)) s) = error s"
  by (simp add: provider_settled_def setResponses_def Let_def)

lemma provider_settled_not_ok:
  "\<not> ok status \<Longrightarrow>
     error (provider_settled p (Replied status (Inr data)) s)
       = AList.update (ident p) (thrown_message p data) (error s)
     \<and> responses (provider_settled p (Replied status (Inr data)) s) = responses s"
  by (simp add: provider_settled_def setError_def Let_def)

lemma provider_settled_thrown:
  "r = Rejected e \<or> r = Replied status (Inl e) \<Longrightarrow>
     error (provider_settled p r s) = AList.update (ident p) (message e) (error s)
     \<and> responses (provider_settled p r s) = responses s"
  by (auto simp: provider_settled_def setError_def Let_def)

text \<open>What the effect does after a render: nothing, or \<open>generateSummary\<close>.\<close>

lemma effect_body_summary:
  "summaryLoading (effect_body s) =
     (summaryLoading s
      \<or> (\<not> anyLoading s \<and> 2 \<le> length (successfulResponses s) \<and> \<not> truthy (summary s)))"
  "calls (effect_body s) =
     (if \<not> anyLoading s \<and> 2 \<le> length (successfulResponses s) \<and> \<not> truthy (summary s)
         \<and> \<not> summaryLoading s
      then (case summaryPrompt s of Inl e \<Rightarrow> calls s | Inr sp \<Rightarrow> calls s @ [SummaryCall sp])
      else calls s)"
  by (auto simp: effect_body_def generateSummary_def split: sum.splits)

lemma step_provider_settle:
  "pending s i \<Longrightarrow> calls s ! i = ProviderCall p q \<Longrightarrow>
     step s (Settle i r) = effect_body (provider_settled p r (s\<lparr> settled := i # settled s \<rparr>))"
  by (simp add: step_def)

lemma step_summary_settle:
  "pending s i \<Longrightarrow> calls s ! i = SummaryCall q \<Longrightarrow>
     step s (Settle i r) = summary_settled r (s\<lparr> settled := i # settled s \<rparr>)"
  by (simp add: step_def)

text \<open>
  The settlement of a provider's call, cell by cell. Neither the prompt that was posted
  nor the index of the call matters to it, but for the record of what has settled.
\<close>

lemma provider_settled_settled:
  "provider_settled p r (s\<lparr> settled := x \<rparr>) = (provider_settled p r s)\<lparr> settled := x \<rparr>"
  by (simp add: provider_settled_def setError_def setResponses_def Let_def
      split: reply.splits sum.splits)

lemma step_settle_cells:
  assumes "pending s i" and "calls s ! i = ProviderCall p q"
  shows "loading (step s (Settle i r)) = AList.update (ident p) False (loading s)"
    and "r = Replied status (Inr data) \<Longrightarrow> ok status \<Longrightarrow>
       responses (step s (Settle i r))
         = AList.update (ident p) (property data ''response'') (responses s)
       \<and> error (step s (Settle i r)) = error s"
    and "r = Rejected e \<or> r = Replied status (Inl e) \<Longrightarrow>
       error (step s (Settle i r)) = AList.update (ident p) (message e) (error s)
       \<and> responses (step s (Settle i r)) = responses s"
    and "r = Replied status (Inr data) \<Longrightarrow> \<not> ok status \<Longrightarrow>
       error (step s (Settle i r)) = AList.update (ident p) (thrown_message p data) (error s)
       \<and> responses (step s (Settle i r)) = responses s"
    and "summary (step s (Settle i r)) = summary s"
    and "prompt (step s (Settle i r)) = prompt s"
    and "console (step s (Settle i r)) = console s"
    and "settled (step s (Settle i r)) = i # settled s"
proof -
  let ?t = "s\<lparr> settled := i # settled s \<rparr>"
  have st: "step s (Settle i r) = effect_body (provider_settled p r ?t)"
    by (rule step_provider_settle [OF assms])
  show "loading (step s (Settle i r)) = AList.update (ident p) False (loading s)"
    "summary (step s (Settle i r)) = summary s"
    "prompt (step s (Settle i r)) = prompt s"
    "console (step s (Settle i r)) = console s"
    "settled (step s (Settle i r)) = i # settled s"
    by (simp_all add: st)
  show "responses (step s (Settle i r))
         = AList.update (ident p) (property data ''response'') (responses s)
       \<and> error (step s (Settle i r)) = error s"
    if "r = Replied status (Inr data)" "ok status"
    using provider_settled_ok [OF that(2), of p data ?t] st by (simp add: that(1))
  show "error (step s (Settle i r)) = AList.update (ident p) (message e) (error s)
       \<and> responses (step s (Settle i r)) = responses s"
    if "r = Rejected e \<or> r = Replied status (Inl e)"
    using provider_settled_thrown [OF that, of p ?t] unfolding st by simp
  show "error (step s (Settle i r)) = AList.update (ident p) (thrown_message p data) (error s)
       \<and> responses (step s (Settle i r)) = responses s"
    if "r = Replied status (Inr data)" "\<not> ok status"
    using provider_settled_not_ok [OF that(2), of p data ?t] st by (simp add: that(1))
qed

lemma card_cong:
  "responses s' = responses s \<Longrightarrow> error s' = error s \<Longrightarrow> loading s' = loading s \<Longrightarrow>
     provider_card s' p = provider_card s p"
  by (simp add: provider_card_def response_of_def error_of_def is_loading_def)

lemma update_other: "k \<noteq> k' \<Longrightarrow> map_of (AList.update k' v al) k = map_of al k"
  by (simp add: update_conv')

subsection \<open>The calls a run issues\<close>

lemma handleSubmit_loading:
  "trim (prompt s) \<noteq> [] \<Longrightarrow>
     loading (handleSubmit s) = map (\<lambda>p. (ident p, True)) AI_PROVIDERS"
  by (simp add: handleSubmit_def AI_PROVIDERS_def)

lemma handleSubmit_anyLoading: "trim (prompt s) \<noteq> [] \<Longrightarrow> anyLoading (handleSubmit s)"
  by (simp add: anyLoading_def handleSubmit_loading) (simp add: AI_PROVIDERS_def)

lemma submit_unfold:
  "submit s = (if trim (prompt s) = [] then s else handleSubmit s)"
  by (simp add: submit_def effect_body_def handleSubmit_anyLoading)

lemma anyLoading_cong: "loading s' = loading s \<Longrightarrow> anyLoading s' = anyLoading s"
  by (simp add: anyLoading_def)

lemma successfulResponses_cong:
  "responses s' = responses s \<Longrightarrow> successfulResponses s' = successfulResponses s"
  by (simp add: successfulResponses_def response_of_def)

lemma responseText_cong: "responses s' = responses s \<Longrightarrow> responseText s' = responseText s"
  by (simp add: responseText_def successfulResponses_def section_of_def response_of_def
      cong: map_cong)

lemma summaryPrompt_cong:
  "prompt s' = prompt s \<Longrightarrow> responses s' = responses s \<Longrightarrow> summaryPrompt s' = summaryPrompt s"
  using responseText_cong [of s' s] by (simp add: summaryPrompt_def split: sum.splits)

lemma printable_cong: "responses s' = responses s \<Longrightarrow> printable s' = printable s"
  using responseText_cong [of s' s] by (simp add: printable_def)

lemma printable_summaryPrompt: "printable s \<longleftrightarrow> (\<exists>sp. summaryPrompt s = Inr sp)"
  by (simp add: printable_def summaryPrompt_def split: sum.splits)

lemma effect_body_settled: "effect_body (s\<lparr> settled := x \<rparr>) = (effect_body s)\<lparr> settled := x \<rparr>"
proof -
  have "summaryPrompt (s\<lparr> settled := x \<rparr>) = summaryPrompt s"
    by (rule summaryPrompt_cong) simp_all
  moreover have "anyLoading (s\<lparr> settled := x \<rparr>) = anyLoading s"
    by (simp add: anyLoading_def)
  moreover have "successfulResponses (s\<lparr> settled := x \<rparr>) = successfulResponses s"
    by (simp add: successfulResponses_def response_of_def)
  ultimately show ?thesis
    by (simp add: effect_body_def generateSummary_def split: sum.splits)
qed

lemma step_settle_unfold:
  "pending s i \<Longrightarrow> calls s ! i = ProviderCall p q \<Longrightarrow>
     step s (Settle i r) = (effect_body (provider_settled p r s))\<lparr> settled := i # settled s \<rparr>"
  by (simp add: step_def provider_settled_settled effect_body_settled)

lemma step_settle_trigger:
  assumes "pending s i" and "calls s ! i = ProviderCall p q"
  shows "summaryLoading (step s (Settle i r)) =
       (summaryLoading s
        \<or> (\<not> anyLoading (step s (Settle i r))
            \<and> 2 \<le> length (successfulResponses (step s (Settle i r)))
            \<and> \<not> truthy (summary s)))"
    and "calls (step s (Settle i r)) =
       (if \<not> anyLoading (step s (Settle i r))
           \<and> 2 \<le> length (successfulResponses (step s (Settle i r)))
           \<and> \<not> truthy (summary s) \<and> \<not> summaryLoading s
        then (case summaryPrompt (step s (Settle i r)) of
                Inl e \<Rightarrow> calls s
              | Inr sp \<Rightarrow> calls s @ [SummaryCall sp])
        else calls s)"
proof -
  let ?u = "provider_settled p r (s\<lparr> settled := i # settled s \<rparr>)"
  have st: "step s (Settle i r) = effect_body ?u"
    by (rule step_provider_settle [OF assms])
  have same: "anyLoading (effect_body ?u) = anyLoading ?u"
    "successfulResponses (effect_body ?u) = successfulResponses ?u"
    "summaryPrompt (effect_body ?u) = summaryPrompt ?u"
    by (rule anyLoading_cong successfulResponses_cong summaryPrompt_cong; simp)+
  show "summaryLoading (step s (Settle i r)) =
       (summaryLoading s
        \<or> (\<not> anyLoading (step s (Settle i r))
            \<and> 2 \<le> length (successfulResponses (step s (Settle i r)))
            \<and> \<not> truthy (summary s)))"
    unfolding st same by (simp add: effect_body_summary(1))
  show "calls (step s (Settle i r)) =
       (if \<not> anyLoading (step s (Settle i r))
           \<and> 2 \<le> length (successfulResponses (step s (Settle i r)))
           \<and> \<not> truthy (summary s) \<and> \<not> summaryLoading s
        then (case summaryPrompt (step s (Settle i r)) of
                Inl e \<Rightarrow> calls s
              | Inr sp \<Rightarrow> calls s @ [SummaryCall sp])
        else calls s)"
    unfolding st same by (simp add: effect_body_summary(2) split: sum.splits)
qed

lemma effect_body_calls:
  "calls (effect_body s) = calls s
    \<or> (\<exists>sp. summaryPrompt (effect_body s) = Inr sp
          \<and> calls (effect_body s) = calls s @ [SummaryCall sp])"
proof -
  have sp: "summaryPrompt (effect_body s) = summaryPrompt s"
    by (rule summaryPrompt_cong) simp_all
  show ?thesis
    unfolding sp by (cases "summaryPrompt s") (simp_all add: effect_body_summary)
qed

lemma step_calls:
  "calls (step s ev) = calls s
   \<or> calls (step s ev) = calls s @ map (\<lambda>p. ProviderCall p (prompt s)) AI_PROVIDERS
   \<or> (\<exists>sp. summaryPrompt (step s ev) = Inr sp \<and> calls (step s ev) = calls s @ [SummaryCall sp])"
proof (cases ev)
  case (Edit t)
  then show ?thesis by (simp add: step_def)
next
  case Click
  then show ?thesis by (simp add: step_def submit_unfold handleSubmit_def)
next
  case CmdEnter
  then show ?thesis by (simp add: step_def submit_unfold handleSubmit_def)
next
  case (Settle i r)
  show ?thesis
  proof (cases "pending s i")
    case False
    with Settle show ?thesis by (simp add: step_def)
  next
    case True
    show ?thesis
    proof (cases "calls s ! i")
      case (ProviderCall p q)
      with True Settle
      have st: "step s ev = effect_body (provider_settled p r (s\<lparr> settled := i # settled s \<rparr>))"
        by (simp add: step_def)
      from effect_body_calls [of "provider_settled p r (s\<lparr> settled := i # settled s \<rparr>)"]
      show ?thesis unfolding st by auto
    next
      case (SummaryCall q)
      with True Settle show ?thesis by (simp add: step_def)
    qed
  qed
qed

lemma run_snoc: "run s (evs @ [ev]) = step (run s evs) ev"
  by (simp add: run_def)

lemma run_Nil [simp]: "run s [] = s"
  by (simp add: run_def)

lemma run_calls_prefix: "prefix (calls s) (calls (run s evs))"
proof (induction evs rule: rev_induct)
  case Nil
  show ?case by simp
next
  case (snoc ev evs)
  from step_calls [of "run s evs" ev] have "prefix (calls (run s evs)) (calls (step (run s evs) ev))"
    by (auto simp: prefix_def)
  with snoc show ?case unfolding run_snoc by (rule prefix_order.trans)
qed

lemma step_prompt: "\<not> is_edit ev \<Longrightarrow> prompt (step s ev) = prompt s"
proof (cases ev)
  case (Settle i r)
  then show ?thesis
    by (cases "calls s ! i") (simp_all add: step_def)
qed (simp_all add: is_edit_def step_def submit_unfold handleSubmit_def)

lemma run_prompt: "\<forall>e \<in> set evs. \<not> is_edit e \<Longrightarrow> prompt (run s evs) = prompt s"
  by (induction evs rule: rev_induct) (simp_all add: run_snoc step_prompt)


lemma sublist_trans': "sublist xs ys \<Longrightarrow> sublist ys zs \<Longrightarrow> sublist xs zs"
  by (rule sublist_order.order.trans)

lemma join_contains: "x \<in> set xs \<Longrightarrow> sublist x (join sep xs)"
proof (induction sep xs rule: join.induct)
  case (3 sep a b bs)
  show ?case
  proof (cases "x = a")
    case True
    then show ?thesis by simp
  next
    case False
    with 3 have "sublist x (join sep (b # bs))" by simp
    then obtain u v where "join sep (b # bs) = u @ x @ v"
      by (auto simp: sublist_def)
    then have "join sep (a # b # bs) = (a @ sep @ u) @ x @ v" by simp
    then show ?thesis unfolding sublist_def by blast
  qed
qed simp_all

lemma collect_map_Inr: "collect (map Inr xs) = Inr xs"
  by (induction xs) simp_all

lemma collect_InrD: "collect rs = Inr xs \<Longrightarrow> rs = map Inr xs"
proof (induction rs arbitrary: xs rule: collect.induct)
  case 1
  then show ?case by simp
next
  case (2 e rs)
  then show ?case by simp
next
  case (3 x rs)
  from "3.prems" obtain ys where ys: "collect rs = Inr ys" "xs = x # ys"
    by (cases "collect rs") auto
  from "3.IH" [OF ys(1)] ys(2) show ?case by simp
qed

lemma collect_Inr: "collect rs = Inr xs \<longleftrightarrow> rs = map Inr xs"
  using collect_map_Inr collect_InrD by blast

lemma joined_Inr: "joined sep rs = Inr t \<longleftrightarrow> (\<exists>xs. rs = map Inr xs \<and> t = join sep xs)"
proof (cases "collect rs")
  case (Inl e)
  then have "rs \<noteq> map Inr xs" for xs
    using collect_Inr [of rs xs] by auto
  with Inl show ?thesis by (auto simp: joined_def)
next
  case (Inr xs)
  then have rs: "rs = map Inr xs" by (simp add: collect_Inr)
  have "map Inr xs = map Inr ys \<longleftrightarrow> xs = ys" for ys :: "string list"
    by (simp add: inj_map_eq_map)
  with Inr show ?thesis by (auto simp: joined_def rs)
qed

text \<open>A string prints as itself: such responses can always be put into the prompt.\<close>

lemma strings_printable:
  assumes "\<forall>p \<in> set (successfulResponses s). \<exists>t. response_of s (ident p) = JStr t"
  shows "printable s"
proof -
  have "\<exists>sec. section_of s p = Inr sec" if "p \<in> set (successfulResponses s)" for p
    using assms that by (auto simp: section_of_def)
  then have "map (section_of s) (successfulResponses s)
      = map Inr (map (\<lambda>p. projr (section_of s p)) (successfulResponses s))"
    by force
  then have "\<exists>t. responseText s = Inr t"
    unfolding responseText_def joined_Inr by blast
  then show ?thesis by (auto simp: printable_def)
qed

lemma section_contains:
  assumes "section_of s p = Inr sec"
  shows "sublist (name p) sec" and "sublist (model p) sec"
    and "\<exists>t. js_to_string (response_of s (ident p)) = Inr t \<and> sublist t sec"
proof -
  from assms obtain t where t: "js_to_string (response_of s (ident p)) = Inr t"
    and sec: "sec = ''### '' @ name p @ '' ('' @ model p @ ''):'' @ LF @ t"
    by (auto simp: section_of_def split: sum.splits)
  have "sec = ''### '' @ name p @ ('' ('' @ model p @ ''):'' @ LF @ t)"
    by (simp add: sec)
  then show "sublist (name p) sec" unfolding sublist_def by blast
  have "sec = (''### '' @ name p @ '' ('') @ model p @ (''):'' @ LF @ t)"
    by (simp add: sec)
  then show "sublist (model p) sec" unfolding sublist_def by blast
  have "sec = (''### '' @ name p @ '' ('' @ model p @ ''):'' @ LF) @ t @ []"
    by (simp add: sec)
  then have "sublist t sec" unfolding sublist_def by blast
  with t show "\<exists>t. js_to_string (response_of s (ident p)) = Inr t \<and> sublist t sec" by blast
qed

lemma template_prompt: "sublist q (template q t)"
proof -
  have "template q t =
      (''You are summarizing AI responses for comparison. The user asked: '' @ [CHR 0x22])
      @ q
      @ ([CHR 0x22] @ LF @ LF
     @ ''Here are the responses from different AI models:'' @ LF @ LF
     @ t @ LF @ LF
     @ ''Provide a brief synthesis (3-5 sentences) highlighting:'' @ LF
     @ ''1. Key points where the AIs agree'' @ LF
     @ ''2. Notable differences in their recommendations'' @ LF
     @ ''3. Any unique insights from specific models'' @ LF @ LF
     @ ''Be concise and actionable. Don'' @ [CHR 0x27]
       @ ''t list each AI separately - synthesize the information.'')"
    by (simp add: template_def)
  then show ?thesis unfolding sublist_def by blast
qed

lemma template_text: "\<exists>u v. template q t = u @ t @ v"
proof -
  have "template q t =
      (''You are summarizing AI responses for comparison. The user asked: '' @ [CHR 0x22]
       @ q @ [CHR 0x22] @ LF @ LF
       @ ''Here are the responses from different AI models:'' @ LF @ LF)
      @ t
      @ (LF @ LF
     @ ''Provide a brief synthesis (3-5 sentences) highlighting:'' @ LF
     @ ''1. Key points where the AIs agree'' @ LF
     @ ''2. Notable differences in their recommendations'' @ LF
     @ ''3. Any unique insights from specific models'' @ LF @ LF
     @ ''Be concise and actionable. Don'' @ [CHR 0x27]
       @ ''t list each AI separately - synthesize the information.'')"
    by (simp add: template_def)
  then show ?thesis by blast
qed

lemma summaryPrompt_prompt: "summaryPrompt s = Inr sp \<Longrightarrow> sublist (prompt s) sp"
  using template_prompt by (auto simp: summaryPrompt_def split: sum.splits)

lemma summaryPrompt_responseText:
  assumes "summaryPrompt s = Inr sp"
  shows "\<exists>secs. map (section_of s) (successfulResponses s) = map Inr secs
     \<and> (\<exists>u v. sp = u @ join delimiter secs @ v)"
proof -
  from assms obtain t where t: "responseText s = Inr t" and sp: "sp = template (prompt s) t"
    by (auto simp: summaryPrompt_def split: sum.splits)
  from t obtain secs where "map (section_of s) (successfulResponses s) = map Inr secs"
    and "t = join delimiter secs"
    unfolding responseText_def joined_Inr by blast
  with template_text [of "prompt s" t] show ?thesis unfolding sp by blast
qed

lemma successfulResponses_subseq: "subseq (successfulResponses s) AI_PROVIDERS"
  by (simp add: successfulResponses_def)

lemma summaryPrompt_sections:
  assumes "p \<in> set AI_PROVIDERS" and "truthy (response_of s (ident p))"
    and "summaryPrompt s = Inr sp"
  shows "p \<in> set (successfulResponses s)"
    and "sublist (name p) sp"
    and "sublist (model p) sp"
    and "\<exists>t. js_to_string (response_of s (ident p)) = Inr t \<and> sublist t sp"
proof -
  show mem: "p \<in> set (successfulResponses s)"
    using assms by (simp add: successfulResponses_def)
  from summaryPrompt_responseText [OF assms(3)] obtain secs u v where
    secs: "map (section_of s) (successfulResponses s) = map Inr secs"
    and sp: "sp = u @ join delimiter secs @ v"
    by blast
  from mem have "section_of s p \<in> set (map (section_of s) (successfulResponses s))"
    by simp
  then obtain sec where sec: "section_of s p = Inr sec" "sec \<in> set secs"
    unfolding secs by auto
  have "sublist sec (join delimiter secs)"
    using sec(2) by (rule join_contains)
  moreover have "sublist (join delimiter secs) sp"
    unfolding sp sublist_def by blast
  ultimately have inc: "sublist sec sp"
    by (rule sublist_trans')
  show "sublist (name p) sp"
    by (rule sublist_trans' [OF section_contains(1) [OF sec(1)] inc])
  show "sublist (model p) sp"
    by (rule sublist_trans' [OF section_contains(2) [OF sec(1)] inc])
  from section_contains(3) [OF sec(1)] obtain t where
    "js_to_string (response_of s (ident p)) = Inr t" "sublist t sec"
    by blast
  with inc show "\<exists>t. js_to_string (response_of s (ident p)) = Inr t \<and> sublist t sp"
    using sublist_trans' by blast
qed

subsection \<open>The invariant of an undisturbed run\<close>

lemma providers_distinct: "distinct (map ident AI_PROVIDERS)"
  by (simp add: AI_PROVIDERS_def)

lemma providers_length: "length AI_PROVIDERS = 5"
  by (simp add: AI_PROVIDERS_def)

text \<open>Under the invariant, a provider is loading exactly while its call has not settled.\<close>

lemma invariant_anyLoading:
  assumes keys: "map fst (loading s) = map ident AI_PROVIDERS"
    and flags: "\<forall>j < length AI_PROVIDERS.
            map_of (loading s) (ident (AI_PROVIDERS ! j)) = Some (n + j \<notin> set (settled s))"
  shows "anyLoading s \<longleftrightarrow> (\<exists>j < length AI_PROVIDERS. n + j \<notin> set (settled s))"
proof
  assume "anyLoading s"
  then obtain k where kv: "(k, True) \<in> set (loading s)"
    by (auto simp: anyLoading_def list_ex_iff)
  then have "k \<in> set (map fst (loading s))" by force
  then obtain j where j: "j < length AI_PROVIDERS" "k = ident (AI_PROVIDERS ! j)"
    unfolding keys by (auto simp: in_set_conv_nth)
  have "distinct (map fst (loading s))"
    unfolding keys by (rule providers_distinct)
  with kv have "map_of (loading s) k = Some True" by simp
  with flags j show "\<exists>j < length AI_PROVIDERS. n + j \<notin> set (settled s)" by auto
next
  assume "\<exists>j < length AI_PROVIDERS. n + j \<notin> set (settled s)"
  then obtain j where "j < length AI_PROVIDERS" "n + j \<notin> set (settled s)" by blast
  with flags have "map_of (loading s) (ident (AI_PROVIDERS ! j)) = Some True" by simp
  then have "(ident (AI_PROVIDERS ! j), True) \<in> set (loading s)" by (rule map_of_SomeD)
  then show "anyLoading s" unfolding anyLoading_def list_ex_iff by force
qed

lemma map_of_constant: "x \<in> set xs \<Longrightarrow> map_of (map (\<lambda>p. (f p, c)) xs) (f x) = Some c"
  by (induction xs) auto

lemma invariant_start:
  assumes "idle s0" and "trim (prompt s0) \<noteq> []"
  shows "run_invariant s0 [] (submit s0)"
proof -
  have sub: "submit s0 = handleSubmit s0"
    using assms(2) by (simp add: submit_unfold)
  have keys: "map fst (loading (handleSubmit s0)) = map ident AI_PROVIDERS"
    using assms(2) by (simp add: handleSubmit_loading comp_def)
  have flags: "map_of (loading (handleSubmit s0)) (ident (AI_PROVIDERS ! j))
      = Some (length (calls s0) + j \<notin> set (settled (handleSubmit s0)))"
    if "j < length AI_PROVIDERS" for j
  proof -
    have "settled (handleSubmit s0) = settled s0"
      by (simp add: handleSubmit_def)
    moreover have "length (calls s0) + j \<notin> set (settled s0)"
      using assms(1) by (simp add: idle_def)
    moreover have "map_of (map (\<lambda>p. (ident p, True)) AI_PROVIDERS) (ident (AI_PROVIDERS ! j)) = Some True"
      using that by (intro map_of_constant) simp
    ultimately show ?thesis
      using assms(2) by (simp add: handleSubmit_loading)
  qed
  have "calls (handleSubmit s0) = calls s0 @ map (\<lambda>p. ProviderCall p (prompt s0)) AI_PROVIDERS @ []"
    "{..<length (calls s0)} \<subseteq> set (settled (handleSubmit s0))"
    "set (settled (handleSubmit s0)) \<subseteq> {..<length (calls s0) + length AI_PROVIDERS}"
    "\<not> truthy (summary (handleSubmit s0))" "\<not> summaryLoading (handleSubmit s0)"
    using assms by (auto simp: handleSubmit_def idle_def)
  moreover have "anyLoading (handleSubmit s0)"
    using assms(2) by (rule handleSubmit_anyLoading)
  ultimately show ?thesis
    unfolding sub run_invariant_def using keys flags by simp
qed


lemma run_invariant_cong:
  assumes "run_invariant s0 extra s"
    and "calls s' = calls s" "settled s' = settled s" "loading s' = loading s"
    and "responses s' = responses s"
    and "summary s' = summary s" "summaryLoading s' = summaryLoading s"
  shows "run_invariant s0 extra s'"
  using assms anyLoading_cong [OF assms(4)] successfulResponses_cong [OF assms(5)]
    printable_cong [OF assms(5)]
  unfolding run_invariant_def by simp

lemma invariant_provider_settled:
  assumes inv: "run_invariant s0 extra s"
    and j: "j < length AI_PROVIDERS"
    and pend: "length (calls s0) + j \<notin> set (settled s)"
  shows "\<exists>extra'. run_invariant s0 extra'
           (effect_body (provider_settled (AI_PROVIDERS ! j) r
              (s\<lparr> settled := (length (calls s0) + j) # settled s \<rparr>)))"
proof -
  let ?n = "length (calls s0)"
  let ?p = "AI_PROVIDERS ! j"
  let ?u = "provider_settled ?p r (s\<lparr> settled := (?n + j) # settled s \<rparr>)"
  from inv have
    cs: "calls s = calls s0 @ map (\<lambda>p. ProviderCall p (prompt s0)) AI_PROVIDERS @ extra"
    and old: "{..<?n} \<subseteq> set (settled s)"
    and bnd: "set (settled s) \<subseteq> {..<?n + length AI_PROVIDERS + length extra}"
    and keys: "map fst (loading s) = map ident AI_PROVIDERS"
    and flags: "\<forall>j < length AI_PROVIDERS.
            map_of (loading s) (ident (AI_PROVIDERS ! j)) = Some (?n + j \<notin> set (settled s))"
    and quiet: "extra = [] \<longrightarrow> \<not> truthy (summary s) \<and> (summaryLoading s \<longrightarrow> \<not> anyLoading s)"
    and fired: "extra \<noteq> [] \<longrightarrow> \<not> anyLoading s"
    unfolding run_invariant_def by simp_all
  have "anyLoading s"
    using invariant_anyLoading [OF keys flags] j pend by blast
  with fired quiet have extra: "extra = []"
    and sm: "\<not> truthy (summary s)" "\<not> summaryLoading s" by auto
  have in_keys: "ident ?p \<in> set (map fst (loading s))"
    unfolding keys using j by simp
  have keys': "map fst (loading ?u) = map ident AI_PROVIDERS"
    using in_keys keys by (simp add: update_keys)
  have flags': "map_of (loading ?u) (ident (AI_PROVIDERS ! j'))
      = Some (?n + j' \<notin> set (settled ?u))" if "j' < length AI_PROVIDERS" for j'
  proof (cases "j' = j")
    case True
    then show ?thesis by (simp add: update_conv')
  next
    case False
    with that j have "ident (AI_PROVIDERS ! j') \<noteq> ident ?p"
      using providers_distinct by (simp add: distinct_conv_nth)
    with False flags that show ?thesis by (simp add: update_conv')
  qed
  have u: "calls ?u = calls s0 @ map (\<lambda>p. ProviderCall p (prompt s0)) AI_PROVIDERS @ []"
    "{..<?n} \<subseteq> set (settled ?u)" "\<not> truthy (summary ?u)" "\<not> summaryLoading ?u"
    using cs old sm extra by auto
  have bnd': "set (settled ?u) \<subseteq> {..<?n + length AI_PROVIDERS}"
    using bnd j unfolding extra by auto
  then have unsettled: "?n + length AI_PROVIDERS \<notin> set (settled ?u)"
    by auto
  show ?thesis
  proof (cases "\<not> anyLoading ?u \<and> 2 \<le> length (successfulResponses ?u)")
    case False
    with u(3,4) have "effect_body ?u = ?u"
      by (auto simp: effect_body_def)
    moreover have "run_invariant s0 [] ?u"
      unfolding run_invariant_def using u bnd' keys' flags' False by auto
    ultimately show ?thesis by auto
  next
    case True
    from True u(3,4) have eb: "effect_body ?u = generateSummary ?u"
      by (simp add: effect_body_def)
    have fields: "loading (generateSummary ?u) = loading ?u"
      "responses (generateSummary ?u) = responses ?u"
      "settled (generateSummary ?u) = settled ?u"
      "summary (generateSummary ?u) = summary ?u"
      "summaryLoading (generateSummary ?u)"
      by (simp_all add: generateSummary_def split: sum.splits)
    note same = anyLoading_cong [OF fields(1)] successfulResponses_cong [OF fields(2)]
      printable_cong [OF fields(2)] fields(1,3,4,5)
    show ?thesis
    proof (cases "summaryPrompt ?u")
      case (Inl e)
      then have np: "\<not> printable ?u"
        by (simp add: printable_summaryPrompt)
      from Inl have "calls (generateSummary ?u) = calls ?u"
        by (simp add: generateSummary_def)
      then have "run_invariant s0 [] (generateSummary ?u)"
        unfolding run_invariant_def using same u(1,2,3) bnd' keys' flags' True np by simp
      with eb show ?thesis by auto
    next
      case (Inr sp)
      then have pr: "printable ?u"
        by (simp add: printable_summaryPrompt)
      from Inr have "calls (generateSummary ?u) = calls ?u @ [SummaryCall sp]"
        by (simp add: generateSummary_def)
      moreover have "set (settled ?u) \<subseteq> {..<?n + length AI_PROVIDERS + 1}"
        using bnd' by auto
      ultimately have "run_invariant s0 [SummaryCall sp] (generateSummary ?u)"
        unfolding run_invariant_def using same u(1,2) unsettled keys' flags' True pr by simp
      with eb show ?thesis by auto
    qed
  qed
qed


lemma invariant_summary_settled:
  assumes inv: "run_invariant s0 [SummaryCall sp] s"
  shows "run_invariant s0 [SummaryCall sp]
           (summary_settled r (s\<lparr> settled := (length (calls s0) + length AI_PROVIDERS) # settled s \<rparr>))"
proof -
  let ?i = "length (calls s0) + length AI_PROVIDERS"
  let ?s' = "summary_settled r (s\<lparr> settled := ?i # settled s \<rparr>)"
  have "anyLoading ?s' = anyLoading s"
    by (rule anyLoading_cong) simp
  moreover have "successfulResponses ?s' = successfulResponses s"
    by (rule successfulResponses_cong) simp
  moreover have "printable ?s' = printable s"
    by (rule printable_cong) simp
  ultimately show ?thesis
    using inv unfolding run_invariant_def by auto
qed

lemma invariant_step:
  assumes inv: "run_invariant s0 extra s" and ev: "\<not> is_submit ev"
  shows "\<exists>extra'. run_invariant s0 extra' (step s ev)"
proof (cases ev)
  case (Edit t)
  have "run_invariant s0 extra (s\<lparr> prompt := t \<rparr>)"
    by (rule run_invariant_cong [OF inv]) simp_all
  with Edit show ?thesis by (auto simp: step_def)
next
  case Click
  with ev show ?thesis by (simp add: is_submit_def)
next
  case CmdEnter
  with ev show ?thesis by (simp add: is_submit_def)
next
  case (Settle i r)
  let ?n = "length (calls s0)"
  let ?N = "length AI_PROVIDERS"
  from inv have
    cs: "calls s = calls s0 @ map (\<lambda>p. ProviderCall p (prompt s0)) AI_PROVIDERS @ extra"
    and shape: "extra = [] \<or> (\<exists>sp. extra = [SummaryCall sp])"
    and old: "{..<?n} \<subseteq> set (settled s)"
    unfolding run_invariant_def by simp_all
  show ?thesis
  proof (cases "pending s i")
    case False
    with Settle inv show ?thesis by (auto simp: step_def)
  next
    case True
    then have i: "i < length (calls s)" "i \<notin> set (settled s)"
      by (simp_all add: pending_def)
    with old have lo: "?n \<le> i" by (meson lessThan_iff not_le subsetD)
    show ?thesis
    proof (cases "i < ?n + ?N")
      case True
      define j where "j = i - ?n"
      with True lo have j: "j < ?N" "i = ?n + j" by simp_all
      have "calls s ! i = ProviderCall (AI_PROVIDERS ! j) (prompt s0)"
        unfolding cs j(2) using j(1) by (simp add: nth_append)
      with \<open>pending s i\<close> Settle
      have "step s ev = effect_body (provider_settled (AI_PROVIDERS ! j) r
              (s\<lparr> settled := (?n + j) # settled s \<rparr>))"
        by (simp add: step_def j(2))
      with invariant_provider_settled [OF inv j(1), of r] i(2) j(2) show ?thesis by simp
    next
      case False
      with i(1) shape obtain sp where extra: "extra = [SummaryCall sp]" and eq: "i = ?n + ?N"
        unfolding cs by auto
      have "calls s ! i = SummaryCall sp"
        unfolding cs eq extra by (simp add: nth_append)
      with \<open>pending s i\<close> Settle
      have "step s ev = summary_settled r (s\<lparr> settled := (?n + ?N) # settled s \<rparr>)"
        by (simp add: step_def eq)
      with invariant_summary_settled [of s0 sp s r] inv extra show ?thesis by auto
    qed
  qed
qed

lemma invariant_run:
  assumes "run_invariant s0 extra s" and "\<forall>e \<in> set evs. \<not> is_submit e"
  shows "\<exists>extra'. run_invariant s0 extra' (run s evs)"
  using assms(2)
proof (induction evs rule: rev_induct)
  case Nil
  with assms(1) show ?case by auto
next
  case (snoc ev evs)
  then obtain extra' where "run_invariant s0 extra' (run s evs)" by auto
  moreover from snoc.prems have "\<not> is_submit ev" by simp
  ultimately show ?case unfolding run_snoc by (rule invariant_step)
qed

lemma invariant_count:
  assumes "run_invariant s0 extra s"
  shows "summary_calls_since (length (calls s0)) s
     = (if \<not> anyLoading s \<and> 2 \<le> length (successfulResponses s) \<and> printable s then 1 else 0)"
proof -
  from assms have
    cs: "calls s = calls s0 @ map (\<lambda>p. ProviderCall p (prompt s0)) AI_PROVIDERS @ extra"
    and shape: "extra = [] \<or> (\<exists>sp. extra = [SummaryCall sp])"
    and none: "extra = [] \<longrightarrow>
        \<not> (\<not> anyLoading s \<and> 2 \<le> length (successfulResponses s) \<and> printable s)"
    and one: "extra \<noteq> [] \<longrightarrow> \<not> anyLoading s \<and> 2 \<le> length (successfulResponses s) \<and> printable s"
    unfolding run_invariant_def by simp_all
  have "summary_calls_since (length (calls s0)) s = length extra"
    using shape unfolding summary_calls_since_def cs
    by (auto simp: is_summary_call_def filter_empty_conv)
  with shape none one show ?thesis by auto
qed

text \<open>
  When the responses cannot be printed, the run ends with \<open>summaryLoading\<close> raised and no
  call in flight to lower it.
\<close>

lemma invariant_stuck:
  assumes "run_invariant s0 extra s"
    and "\<not> anyLoading s" and "2 \<le> length (successfulResponses s)" and "\<not> printable s"
  shows "summaryLoading s \<and> summary_calls_since (length (calls s0)) s = 0"
proof -
  from assms(1,4) have "extra = []" "summaryLoading s \<longleftrightarrow>
      \<not> anyLoading s \<and> 2 \<le> length (successfulResponses s) \<and> \<not> printable s"
    unfolding run_invariant_def by auto
  with assms(2-4) invariant_count [OF assms(1)] show ?thesis by simp
qed

text \<open>
  When every call of such a run has settled and the responses can be printed, nothing is
  in flight again: the next submission starts a run of the same kind.
\<close>

lemma invariant_idle:
  assumes "run_invariant s0 extra s" and "\<forall>i < length (calls s). i \<in> set (settled s)"
    and "printable s"
  shows "idle s"
proof -
  let ?n = "length (calls s0) + length AI_PROVIDERS"
  from assms(1) have
    len: "length (calls s) = ?n + length extra"
    and bnd: "set (settled s) \<subseteq> {..<?n + length extra}"
    and quiet: "extra = [] \<longrightarrow> (summaryLoading s \<longrightarrow> \<not> printable s)"
    and sl: "extra \<noteq> [] \<longrightarrow> (summaryLoading s \<longleftrightarrow> ?n \<notin> set (settled s))"
    unfolding run_invariant_def by simp_all
  from assms(2) bnd have "set (settled s) = {..<length (calls s)}"
    unfolding len by auto
  moreover have "\<not> summaryLoading s"
  proof (cases "extra = []")
    case True
    with quiet assms(3) show ?thesis by blast
  next
    case False
    then have "?n < length (calls s)" unfolding len by simp
    with assms(2) sl False show ?thesis by blast
  qed
  ultimately show ?thesis by (simp add: idle_def)
qed

lemma undisturbed_run_ends_idle:
  assumes "idle s0" and "trim (prompt s0) \<noteq> []"
    and "\<forall>e \<in> set evs. \<not> is_submit e"
    and "\<forall>i < length (calls (run (submit s0) evs)). i \<in> set (settled (run (submit s0) evs))"
    and "printable (run (submit s0) evs)"
  shows "idle (run (submit s0) evs)"
proof -
  obtain extra where "run_invariant s0 extra (run (submit s0) evs)"
    using invariant_run [OF invariant_start [OF assms(1,2)] assms(3)] by blast
  then show ?thesis using assms(4,5) by (rule invariant_idle)
qed

text \<open>A submission posts the prompt of the state it is made in, once per provider.\<close>

lemma submission_posts_prompt:
  "trim (prompt s) \<noteq> [] \<Longrightarrow>
     calls (submit s) = calls s @ map (\<lambda>p. ProviderCall p (prompt s)) AI_PROVIDERS"
  by (simp add: submit_unfold handleSubmit_def)

lemma first_provider: "ident (AI_PROVIDERS ! 0) = ''chatgpt''"
  by (simp add: AI_PROVIDERS_def)

text \<open>
  Two responses that cannot be printed: when the last provider settles the synthesis
  prompt cannot be built, no summary call is issued, and \<open>summaryLoading\<close> stays raised.
\<close>

lemma unprintable_responses_stall:
  "\<not> anyLoading (run initial two_unprintable)
   \<and> length (successfulResponses (run initial two_unprintable)) = 2
   \<and> \<not> printable (run initial two_unprintable)
   \<and> summary_calls_since 0 (run initial two_unprintable) = 0
   \<and> length (calls (run initial two_unprintable)) = 5
   \<and> summaryLoading (run initial two_unprintable)"
  by code_simp


subsection \<open>Claims about the page\<close>

text \<open>
  Claim C1 fails as stated. In the scenario \<open>resubmitted_during_summary\<close> the second run
  (its calls start at index 6) ends with nothing in flight, no provider loading, two truthy
  responses, an empty summary and \<open>summaryLoading\<close> lowered, and no summary call was issued
  since it started: while its providers settled the summary call of the run before was
  still loading, and the effect is not run again when that call settles, as its
  dependencies are \<open>loading\<close> and \<open>responses\<close> only. In the scenario \<open>fired_twice\<close> two
  summary calls are issued after the second submission (its calls start at index 5).
\<close>

theorem summary_never_fires_counterexample:
  "length (calls (run initial two_of_five)) = 6
   \<and> calls (run initial resubmitted_during_summary) ! 6
        = ProviderCall (AI_PROVIDERS ! 0) ''Explain quicksort''
   \<and> length (calls (run initial resubmitted_during_summary)) = 11
   \<and> idle (run initial resubmitted_during_summary)
   \<and> \<not> anyLoading (run initial resubmitted_during_summary)
   \<and> length (successfulResponses (run initial resubmitted_during_summary)) = 2
   \<and> \<not> truthy (summary (run initial resubmitted_during_summary))
   \<and> \<not> summaryLoading (run initial resubmitted_during_summary)
   \<and> summary_calls_since 6 (run initial resubmitted_during_summary) = 0
   \<and> length (calls (run initial superseded)) = 10
   \<and> calls (run initial fired_twice) ! 5
        = ProviderCall (AI_PROVIDERS ! 0) ''Explain mergesort''
   \<and> summary_calls_since 5 (run initial fired_twice) = 2"
  by code_simp

text \<open>
  Claim C1 (amended). Take a run that starts by a submission (Ctrl+Enter, or the button while
  it is enabled) in a state where nothing is in flight, and that no other submission
  follows. At every moment of it, whatever the order of the settlements and the edits of
  the text area, the number of summary calls issued since its start is one if no provider
  is loading, at least two providers hold a truthy response and these responses can be
  printed into the synthesis prompt, as texts always can; and it is zero otherwise. So the
  summary fires once when the last provider has settled and two or more succeeded, never
  fires when fewer succeeded, and never fires twice.
\<close>

theorem summary_fires_once:
  assumes "idle s0" and "trim (prompt s0) \<noteq> []"
    and "ev0 = CmdEnter \<or> (ev0 = Click \<and> \<not> anyLoading s0)"
    and "\<forall>e \<in> set evs. \<not> is_submit e"
  shows "summary_calls_since (length (calls s0)) (run s0 (ev0 # evs))
     = (if \<not> anyLoading (run s0 (ev0 # evs))
           \<and> 2 \<le> length (successfulResponses (run s0 (ev0 # evs)))
           \<and> printable (run s0 (ev0 # evs)) then 1 else 0)
   \<and> ((\<forall>p \<in> set (successfulResponses (run s0 (ev0 # evs))).
          \<exists>t. response_of (run s0 (ev0 # evs)) (ident p) = JStr t) \<longrightarrow>
        summary_calls_since (length (calls s0)) (run s0 (ev0 # evs))
          = (if \<not> anyLoading (run s0 (ev0 # evs))
                \<and> 2 \<le> length (successfulResponses (run s0 (ev0 # evs))) then 1 else 0))"
proof -
  have "step s0 ev0 = submit s0"
    using assms(2,3) by (auto simp: step_def button_disabled_def)
  then have "run s0 (ev0 # evs) = run (submit s0) evs"
    by (simp add: run_def)
  moreover obtain extra where "run_invariant s0 extra (run (submit s0) evs)"
    using invariant_run [OF invariant_start [OF assms(1,2)] assms(4)] by blast
  ultimately have count: "summary_calls_since (length (calls s0)) (run s0 (ev0 # evs))
     = (if \<not> anyLoading (run s0 (ev0 # evs))
           \<and> 2 \<le> length (successfulResponses (run s0 (ev0 # evs)))
           \<and> printable (run s0 (ev0 # evs)) then 1 else 0)"
    using invariant_count by simp
  with strings_printable [of "run s0 (ev0 # evs)"] show ?thesis by auto
qed

theorem summary_fires_once_witness:
  "idle (run initial [Edit ''Explain quicksort''])
   \<and> trim (prompt (run initial [Edit ''Explain quicksort''])) \<noteq> []
   \<and> \<not> anyLoading (run initial [Edit ''Explain quicksort''])
   \<and> printable (run initial two_of_five)
   \<and> summary_calls_since 0 (run initial two_of_five) = 1"
proof -
  let ?s0 = "run initial [Edit ''Explain quicksort'']"
  let ?evs = "[Settle 0 (answered ''GPT-5.2'' ''It partitions.''), Settle 1 refused,
      Settle 2 (answered ''Gemini 3 Pro'' ''It recurses.''),
      Settle 3 unreachable, Settle 4 unreachable]"
  have s0: "?s0 = initial\<lparr> prompt := ''Explain quicksort'' \<rparr>"
    by (simp add: run_def step_def)
  have a: "idle ?s0" unfolding s0 by (simp add: idle_def initial_def)
  have b: "trim (prompt ?s0) \<noteq> []" unfolding s0 by (simp add: trim_def is_space_def)
  have c: "\<not> anyLoading ?s0" unfolding s0 by (simp add: anyLoading_def initial_def)
  have d: "\<forall>e \<in> set ?evs. \<not> is_submit e" by (simp add: is_submit_def)
  have e: "run ?s0 (Click # ?evs) = run initial two_of_five"
    by (simp add: run_def two_of_five_def)
  have f: "\<not> anyLoading (run initial two_of_five)
     \<and> 2 \<le> length (successfulResponses (run initial two_of_five))
     \<and> printable (run initial two_of_five)"
    by code_simp
  have g: "length (calls ?s0) = 0" unfolding s0 by (simp add: initial_def)
  from summary_fires_once [OF a b _ d, of Click] c e f g
  have "summary_calls_since 0 (run initial two_of_five) = 1" by simp
  with a b c f show ?thesis by simp
qed

text \<open>
  Claim C2 fails as stated. In the scenario \<open>superseded\<close> ChatGPT's call of the first
  submission (index 0) settles after the second submission, whose own call for ChatGPT
  (index 5) is still in flight: the page stores the late text as ChatGPT's response and
  lowers ChatGPT's loading flag.
\<close>

theorem stale_completion_counterexample:
  "calls (run initial superseded) ! 0 = ProviderCall (AI_PROVIDERS ! 0) ''Explain quicksort''
   \<and> calls (run initial superseded) ! 5 = ProviderCall (AI_PROVIDERS ! 0) ''Explain mergesort''
   \<and> pending (run initial superseded) 0
   \<and> pending (run initial superseded) 5
   \<and> response_of (run initial superseded) ''chatgpt'' = JUndefined
   \<and> is_loading (run initial superseded) ''chatgpt''
   \<and> response_of (run initial (superseded @ [Settle 0 (answered ''GPT-5.2'' ''It partitions.'')]))
        ''chatgpt'' = JStr ''It partitions.''
   \<and> \<not> is_loading (run initial (superseded @ [Settle 0 (answered ''GPT-5.2'' ''It partitions.'')]))
        ''chatgpt''
   \<and> pending (run initial (superseded @ [Settle 0 (answered ''GPT-5.2'' ''It partitions.'')])) 5"
  by code_simp

text \<open>
  Claim C2 (amended). The page has no run identifier: when a provider's call settles, its
  callback is applied to the state as it is then, whichever submission issued the call, so
  that two pending calls for the same provider have the same effect. It lowers that
  provider's loading flag. On a success status it stores the \<open>response\<close> of the body as the
  provider's response and leaves the errors alone; on a rejected \<open>fetch\<close>, a body that
  cannot be decoded or a failure status it stores the error's message as the provider's
  error and leaves the responses alone. The responses, errors and loading flags of the
  other providers, the prompt and the summary text are not written. The effect then tests
  the resulting state: if no provider is loading, at least two responses are truthy, the
  summary text is empty and no summary is loading, \<open>summaryLoading\<close> is raised and the
  summary call is issued, built from the responses then stored, provided they can be
  printed; otherwise \<open>summaryLoading\<close> and the calls stay as they were. While a provider is
  loading, a click on the Compare button changes nothing.
\<close>

theorem completion_is_applied_to_the_current_state:
  assumes "pending s i" and "calls s ! i = ProviderCall p q"
  shows "loading (step s (Settle i r)) = AList.update (ident p) False (loading s)
     \<and> \<not> is_loading (step s (Settle i r)) (ident p)
     \<and> (r = Replied status (Inr data) \<and> ok status \<longrightarrow>
          responses (step s (Settle i r))
            = AList.update (ident p) (property data ''response'') (responses s)
          \<and> response_of (step s (Settle i r)) (ident p) = property data ''response''
          \<and> error (step s (Settle i r)) = error s)
     \<and> (r = Rejected e \<or> r = Replied status (Inl e) \<longrightarrow>
          error (step s (Settle i r)) = AList.update (ident p) (message e) (error s)
          \<and> error_of (step s (Settle i r)) (ident p) = message e
          \<and> responses (step s (Settle i r)) = responses s)
     \<and> (r = Replied status (Inr data) \<and> \<not> ok status \<longrightarrow>
          error (step s (Settle i r))
            = AList.update (ident p) (thrown_message p data) (error s)
          \<and> error_of (step s (Settle i r)) (ident p) = thrown_message p data
          \<and> responses (step s (Settle i r)) = responses s)
     \<and> (\<forall>k. k \<noteq> ident p \<longrightarrow>
          response_of (step s (Settle i r)) k = response_of s k
          \<and> error_of (step s (Settle i r)) k = error_of s k
          \<and> is_loading (step s (Settle i r)) k = is_loading s k)
     \<and> summary (step s (Settle i r)) = summary s
     \<and> prompt (step s (Settle i r)) = prompt s
     \<and> summaryLoading (step s (Settle i r)) =
         (summaryLoading s
          \<or> (\<not> anyLoading (step s (Settle i r))
              \<and> 2 \<le> length (successfulResponses (step s (Settle i r)))
              \<and> \<not> truthy (summary s)))
     \<and> calls (step s (Settle i r)) =
         (if \<not> anyLoading (step s (Settle i r))
             \<and> 2 \<le> length (successfulResponses (step s (Settle i r)))
             \<and> \<not> truthy (summary s) \<and> \<not> summaryLoading s
          then (case summaryPrompt (step s (Settle i r)) of
                  Inl x \<Rightarrow> calls s
                | Inr sp \<Rightarrow> calls s @ [SummaryCall sp])
          else calls s)
     \<and> (\<forall>i' q'. pending s i' \<and> calls s ! i' = ProviderCall p q' \<longrightarrow>
          step s (Settle i' r) = (step s (Settle i r))\<lparr> settled := i' # settled s \<rparr>)
     \<and> (anyLoading s \<longrightarrow> step s Click = s)"
proof -
  let ?s' = "step s (Settle i r)"
  note cells = step_settle_cells [OF assms, of r]
  have a: "loading ?s' = AList.update (ident p) False (loading s)"
    by (rule cells(1))
  then have a': "\<not> is_loading ?s' (ident p)"
    by (simp add: is_loading_def update_conv')
  have b: "r = Replied status (Inr data) \<and> ok status \<longrightarrow>
          responses ?s' = AList.update (ident p) (property data ''response'') (responses s)
          \<and> response_of ?s' (ident p) = property data ''response''
          \<and> error ?s' = error s"
    using cells(2) [of status data] by (simp add: response_of_def update_conv')
  have c: "r = Rejected e \<or> r = Replied status (Inl e) \<longrightarrow>
          error ?s' = AList.update (ident p) (message e) (error s)
          \<and> error_of ?s' (ident p) = message e
          \<and> responses ?s' = responses s"
    using cells(3) [of e status] by (simp add: error_of_def update_conv')
  have d: "r = Replied status (Inr data) \<and> \<not> ok status \<longrightarrow>
          error ?s' = AList.update (ident p) (thrown_message p data) (error s)
          \<and> error_of ?s' (ident p) = thrown_message p data
          \<and> responses ?s' = responses s"
    using cells(4) [of status data] by (simp add: error_of_def update_conv')
  have st: "?s' = effect_body (provider_settled p r (s\<lparr> settled := i # settled s \<rparr>))"
    by (rule step_provider_settle [OF assms])
  have f: "\<forall>k. k \<noteq> ident p \<longrightarrow>
          response_of ?s' k = response_of s k
          \<and> error_of ?s' k = error_of s k
          \<and> is_loading ?s' k = is_loading s k"
    using provider_settled_writes_one [of p r "s\<lparr> settled := i # settled s \<rparr>"]
    by (auto simp: st response_of_def error_of_def is_loading_def update_other)
  have g: "summary ?s' = summary s" "prompt ?s' = prompt s"
    by (rule cells(5) cells(6))+
  note h = step_settle_trigger [OF assms, of r]
  have k: "\<forall>i' q'. pending s i' \<and> calls s ! i' = ProviderCall p q' \<longrightarrow>
          step s (Settle i' r) = ?s'\<lparr> settled := i' # settled s \<rparr>"
    by (auto simp: step_settle_unfold [OF assms] step_settle_unfold)
  have l: "anyLoading s \<longrightarrow> step s Click = s"
    by (simp add: step_def button_disabled_def)
  show ?thesis
    by (intro conjI a a' b c d f g h(1) h(2) k l)
qed

theorem completion_is_applied_witness:
  "pending (run initial stale_settlements) 4
   \<and> calls (run initial stale_settlements) ! 4
        = ProviderCall (AI_PROVIDERS ! 4) ''Explain quicksort''
   \<and> pending (run initial stale_settlements) 9
   \<and> calls (run initial stale_settlements) ! 9
        = ProviderCall (AI_PROVIDERS ! 4) ''Explain mergesort''
   \<and> anyLoading (run initial stale_settlements)
   \<and> step (run initial stale_settlements) Click = run initial stale_settlements
   \<and> error_of (step (run initial stale_settlements) (Settle 4 unreachable)) ''perplexity''
        = ''Failed to fetch''
   \<and> \<not> is_loading (step (run initial stale_settlements) (Settle 4 unreachable)) ''perplexity''
   \<and> response_of (step (run initial stale_settlements) (Settle 4 unreachable)) ''chatgpt''
        = JStr ''It partitions.''
   \<and> step (run initial stale_settlements) (Settle 9 unreachable)
        = (step (run initial stale_settlements) (Settle 4 unreachable))
            \<lparr> settled := 9 # settled (run initial stale_settlements) \<rparr>
   \<and> \<not> anyLoading (step (run initial stale_settlements) (Settle 4 unreachable))
   \<and> summaryLoading (step (run initial stale_settlements) (Settle 4 unreachable))
   \<and> length (calls (step (run initial stale_settlements) (Settle 4 unreachable))) = 11
   \<and> is_summary_call (calls (step (run initial stale_settlements) (Settle 4 unreachable)) ! 10)"
proof -
  let ?s = "run initial stale_settlements"
  let ?s' = "step ?s (Settle 4 unreachable)"
  have a: "pending ?s 4" by code_simp
  have b: "calls ?s ! 4 = ProviderCall (AI_PROVIDERS ! 4) ''Explain quicksort''" by code_simp
  have c: "pending ?s 9" by code_simp
  have d: "calls ?s ! 9 = ProviderCall (AI_PROVIDERS ! 4) ''Explain mergesort''" by code_simp
  have e: "anyLoading ?s" by code_simp
  have f: "response_of ?s ''chatgpt'' = JStr ''It partitions.''" by code_simp
  have g: "ident (AI_PROVIDERS ! 4) = ''perplexity''" by (simp add: AI_PROVIDERS_def)
  have h: "\<not> anyLoading ?s'" "2 \<le> length (successfulResponses ?s')"
    "\<not> truthy (summary ?s)" "\<not> summaryLoading ?s" "length (calls ?s) = 10"
    "printable ?s'"
    by code_simp+
  have r: "unreachable = Rejected (TypeError ''Failed to fetch'')"
    by (simp add: unreachable_def)
  note inst = completion_is_applied_to_the_current_state [OF a b,
      of unreachable 200 "[]" "TypeError ''Failed to fetch''"]
  from inst r have err: "error_of ?s' ''perplexity'' = ''Failed to fetch''"
    by (simp add: g)
  from inst have low: "\<not> is_loading ?s' ''perplexity''"
    by (simp add: g)
  from inst f have other: "response_of ?s' ''chatgpt'' = JStr ''It partitions.''"
    by (simp add: g)
  from inst c d have same: "step ?s (Settle 9 unreachable) = ?s'\<lparr> settled := 9 # settled ?s \<rparr>"
    by blast
  from inst e have click: "step ?s Click = ?s"
    by blast
  from inst h(1-4) have sl: "summaryLoading ?s'"
    by blast
  from h(6) obtain sp where sp: "summaryPrompt ?s' = Inr sp"
    by (auto simp: printable_summaryPrompt)
  from inst h(1-4) have "calls ?s' = (case summaryPrompt ?s' of
                  Inl x \<Rightarrow> calls ?s
                | Inr sp \<Rightarrow> calls ?s @ [SummaryCall sp])"
    by simp
  then have "calls ?s' = calls ?s @ [SummaryCall sp]"
    by (simp add: sp)
  with h(5) have cl: "length (calls ?s') = 11" "is_summary_call (calls ?s' ! 10)"
    by (simp_all add: is_summary_call_def nth_append)
  from a b c d e click err low other same h(1) sl cl show ?thesis
    by blast
qed

text \<open>
  Claim C6 fails as stated. In the scenario \<open>edited_while_loading\<close> the providers were sent
  the prompt \<open>Explain quicksort\<close>; the text area was edited while they were loading, and the
  synthesis prompt, built from the text area when the summary fires, does not contain the
  prompt that was sent.
\<close>

theorem edited_prompt_counterexample:
  "calls (run initial edited_while_loading) ! 0
     = ProviderCall (AI_PROVIDERS ! 0) ''Explain quicksort''
   \<and> is_summary_call (calls (run initial edited_while_loading) ! 5)
   \<and> (case opt_prop (posted (calls (run initial edited_while_loading) ! 5)) ''prompt'' of
         JStr sp \<Rightarrow> \<not> sublist ''Explain quicksort'' sp \<and> sublist ''Explain mergesort'' sp
       | _ \<Rightarrow> False)"
  by code_simp

text \<open>
  Claim C6 (amended). Every summary call issued during a run was appended, alone, by one of
  its events, and in the state that event left: the synthesis prompt contains the text
  then held by the prompt field (which is the prompt of the state the run started in when
  no event of the run edited the field); it contains the sections of the providers with a
  truthy response, in registry order, joined by the delimiter; for each of these providers
  it contains the display name, the model label and the response as a string, which for a
  text is the text itself; and the call posts the provider \<open>claude\<close>.
\<close>

theorem synthesis_prompt:
  assumes "SummaryCall sp \<in> set (drop (length (calls s)) (calls (run s evs)))"
  shows "\<exists>evs0 ev. prefix (evs0 @ [ev]) evs
     \<and> calls (run s (evs0 @ [ev])) = calls (run s evs0) @ [SummaryCall sp]
     \<and> sublist (prompt (run s (evs0 @ [ev]))) sp
     \<and> ((\<forall>e \<in> set evs. \<not> is_edit e) \<longrightarrow> sublist (prompt s) sp)
     \<and> (\<exists>secs. map (section_of (run s (evs0 @ [ev]))) (successfulResponses (run s (evs0 @ [ev])))
                  = map Inr secs
              \<and> (\<exists>u v. sp = u @ join delimiter secs @ v))
     \<and> subseq (successfulResponses (run s (evs0 @ [ev]))) AI_PROVIDERS
     \<and> (\<forall>p \<in> set AI_PROVIDERS. truthy (response_of (run s (evs0 @ [ev])) (ident p)) \<longrightarrow>
           p \<in> set (successfulResponses (run s (evs0 @ [ev])))
           \<and> sublist (name p) sp \<and> sublist (model p) sp
           \<and> (\<exists>t. js_to_string (response_of (run s (evs0 @ [ev])) (ident p)) = Inr t
                  \<and> sublist t sp)
           \<and> (\<forall>t. response_of (run s (evs0 @ [ev])) (ident p) = JStr t \<longrightarrow> sublist t sp))
     \<and> posted (SummaryCall sp) = JObj [(''prompt'', JStr sp), (''provider'', JStr ''claude'')]"
  using assms
proof (induction evs rule: rev_induct)
  case Nil
  then show ?case by simp
next
  case (snoc ev evs)
  let ?old = "run s evs"
  let ?new = "run s (evs @ [ev])"
  let ?n = "length (calls s)"
  have new: "?new = step ?old ev" by (rule run_snoc)
  have le: "?n \<le> length (calls ?old)"
    using run_calls_prefix [of s evs] by (rule prefix_length_le)
  have pre: "prefix evs (evs @ [ev])" by simp
  have earlier: ?case if "SummaryCall sp \<in> set (drop ?n (calls ?old))"
  proof -
    from snoc.IH [OF that] obtain evs0 ev0 where
      h: "prefix (evs0 @ [ev0]) evs"
         "calls (run s (evs0 @ [ev0])) = calls (run s evs0) @ [SummaryCall sp]"
         "sublist (prompt (run s (evs0 @ [ev0]))) sp"
         "(\<forall>e \<in> set evs. \<not> is_edit e) \<longrightarrow> sublist (prompt s) sp"
         "\<exists>secs. map (section_of (run s (evs0 @ [ev0]))) (successfulResponses (run s (evs0 @ [ev0])))
                  = map Inr secs
              \<and> (\<exists>u v. sp = u @ join delimiter secs @ v)"
         "subseq (successfulResponses (run s (evs0 @ [ev0]))) AI_PROVIDERS"
         "\<forall>p \<in> set AI_PROVIDERS. truthy (response_of (run s (evs0 @ [ev0])) (ident p)) \<longrightarrow>
           p \<in> set (successfulResponses (run s (evs0 @ [ev0])))
           \<and> sublist (name p) sp \<and> sublist (model p) sp
           \<and> (\<exists>t. js_to_string (response_of (run s (evs0 @ [ev0])) (ident p)) = Inr t
                  \<and> sublist t sp)
           \<and> (\<forall>t. response_of (run s (evs0 @ [ev0])) (ident p) = JStr t \<longrightarrow> sublist t sp)"
         "posted (SummaryCall sp) = JObj [(''prompt'', JStr sp), (''provider'', JStr ''claude'')]"
      by blast
    from h(1) pre have "prefix (evs0 @ [ev0]) (evs @ [ev])"
      by (rule prefix_order.trans)
    moreover from h(4) have "(\<forall>e \<in> set (evs @ [ev]). \<not> is_edit e) \<longrightarrow> sublist (prompt s) sp"
      by simp
    ultimately show ?thesis
      using h(2,3,5,6,7,8) by blast
  qed
  from step_calls [of ?old ev]
  consider (same) "calls ?new = calls ?old"
    | (submitted) "calls ?new = calls ?old @ map (\<lambda>p. ProviderCall p (prompt ?old)) AI_PROVIDERS"
    | (fired) sp' where "summaryPrompt ?new = Inr sp'"
        "calls ?new = calls ?old @ [SummaryCall sp']"
    unfolding new by blast
  then show ?case
  proof cases
    case same
    with snoc.prems show ?thesis by (intro earlier) simp
  next
    case submitted
    with snoc.prems le show ?thesis by (intro earlier) auto
  next
    case fired
    show ?thesis
    proof (cases "SummaryCall sp \<in> set (drop ?n (calls ?old))")
      case True
      then show ?thesis by (rule earlier)
    next
      case False
      with snoc.prems fired(2) le have "sp = sp'" by auto
      with fired have sp: "summaryPrompt ?new = Inr sp"
        and b: "calls (run s (evs @ [ev])) = calls (run s evs) @ [SummaryCall sp]"
        by simp_all
      have a: "prefix (evs @ [ev]) (evs @ [ev])" by simp
      have c: "sublist (prompt ?new) sp"
        using sp by (rule summaryPrompt_prompt)
      have d: "(\<forall>e \<in> set (evs @ [ev]). \<not> is_edit e) \<longrightarrow> sublist (prompt s) sp"
        using c run_prompt [of "evs @ [ev]" s] by auto
      have e: "\<exists>secs. map (section_of ?new) (successfulResponses ?new) = map Inr secs
              \<and> (\<exists>u v. sp = u @ join delimiter secs @ v)"
        using sp by (rule summaryPrompt_responseText)
      have f: "subseq (successfulResponses ?new) AI_PROVIDERS"
        by (rule successfulResponses_subseq)
      have g: "\<forall>p \<in> set AI_PROVIDERS. truthy (response_of ?new (ident p)) \<longrightarrow>
           p \<in> set (successfulResponses ?new)
           \<and> sublist (name p) sp \<and> sublist (model p) sp
           \<and> (\<exists>t. js_to_string (response_of ?new (ident p)) = Inr t \<and> sublist t sp)
           \<and> (\<forall>t. response_of ?new (ident p) = JStr t \<longrightarrow> sublist t sp)"
      proof (intro ballI impI)
        fix p
        assume p: "p \<in> set AI_PROVIDERS" "truthy (response_of ?new (ident p))"
        from summaryPrompt_sections [OF p sp]
        show "p \<in> set (successfulResponses ?new)
           \<and> sublist (name p) sp \<and> sublist (model p) sp
           \<and> (\<exists>t. js_to_string (response_of ?new (ident p)) = Inr t \<and> sublist t sp)
           \<and> (\<forall>t. response_of ?new (ident p) = JStr t \<longrightarrow> sublist t sp)"
          by auto
      qed
      have h: "posted (SummaryCall sp) = JObj [(''prompt'', JStr sp), (''provider'', JStr ''claude'')]"
        by simp
      from a b c d e f g h show ?thesis by blast
    qed
  qed
qed

theorem synthesis_prompt_witness:
  "(case calls (run initial two_of_five) ! 5 of
      SummaryCall sp \<Rightarrow>
        SummaryCall sp \<in> set (drop 0 (calls (run initial two_of_five)))
        \<and> sublist ''Explain quicksort'' sp
        \<and> posted (SummaryCall sp) = JObj [(''prompt'', JStr sp), (''provider'', JStr ''claude'')]
    | ProviderCall p q \<Rightarrow> False)"
proof -
  let ?s = "run initial [Edit ''Explain quicksort'']"
  let ?evs = "[Click, Settle 0 (answered ''GPT-5.2'' ''It partitions.''), Settle 1 refused,
      Settle 2 (answered ''Gemini 3 Pro'' ''It recurses.''),
      Settle 3 unreachable, Settle 4 unreachable]"
  have s: "?s = initial\<lparr> prompt := ''Explain quicksort'' \<rparr>"
    by (simp add: run_def step_def)
  have r: "run ?s ?evs = run initial two_of_five"
    by (simp add: run_def two_of_five_def)
  have n: "length (calls ?s) = 0" unfolding s by (simp add: initial_def)
  have q: "prompt ?s = ''Explain quicksort''" unfolding s by simp
  have len: "length (calls (run initial two_of_five)) = 6"
    and is_sc: "is_summary_call (calls (run initial two_of_five) ! 5)"
    by code_simp+
  from is_sc obtain sp where sp: "calls (run initial two_of_five) ! 5 = SummaryCall sp"
    by (auto simp: is_summary_call_def split: call.splits)
  from len have "calls (run initial two_of_five) ! 5 \<in> set (calls (run initial two_of_five))"
    by (intro nth_mem) simp
  then have a: "SummaryCall sp \<in> set (drop 0 (calls (run initial two_of_five)))"
    by (simp add: sp)
  have b: "\<forall>e \<in> set ?evs. \<not> is_edit e" by (simp add: is_edit_def)
  from a have "SummaryCall sp \<in> set (drop (length (calls ?s)) (calls (run ?s ?evs)))"
    by (simp only: n r)
  from synthesis_prompt [OF this] b q
  have "sublist ''Explain quicksort'' sp" by auto
  with a show ?thesis by (simp add: sp)
qed

text \<open>
  Claim C7 fails as stated. In the scenario \<open>two_of_five\<close> the summary call is answered 500
  by an endpoint that lacks \<open>ANTHROPIC_API_KEY\<close>: the handler logs nothing on that path,
  and the page, which logs thrown errors only, writes no line either.
\<close>

theorem failed_summary_not_logged_counterexample:
  "pending (run initial two_of_five) 5
   \<and> is_summary_call (calls (run initial two_of_five) ! 5)
   \<and> served no_anthropic_key (calls (run initial two_of_five) ! 5) = Some refused
   \<and> effects (handler no_anthropic_key
        \<lparr> req_method = ''POST'', req_body = posted (calls (run initial two_of_five) ! 5) \<rparr>)
       = [Lookup ''claude'', CredentialCheck ''ANTHROPIC_API_KEY'']
   \<and> console (run initial (two_of_five @ [Settle 5 refused])) = []"
  by code_simp

text \<open>
  Claim C7 (amended). When the summary call fails, by a rejected \<open>fetch\<close>, by a success
  response whose body cannot be decoded, or by a response with a failure status, the
  summary text stays as it was, \<open>summaryLoading\<close> is lowered, no response, error or loading
  flag changes, so every provider's card is drawn as before, and the summary panel is
  absent if the summary text was empty. A thrown error is logged with \<open>console.error\<close>; a
  response with a failure status is not logged.
\<close>

theorem summary_failure_is_silent:
  assumes "pending s i" and "calls s ! i = SummaryCall q"
    and "r = Rejected e \<or> (r = Replied status (Inl e) \<and> ok status)
          \<or> (r = Replied status body \<and> \<not> ok status)"
  shows "summary (step s (Settle i r)) = summary s
     \<and> \<not> summaryLoading (step s (Settle i r))
     \<and> responses (step s (Settle i r)) = responses s
     \<and> error (step s (Settle i r)) = error s
     \<and> loading (step s (Settle i r)) = loading s
     \<and> (\<forall>p. provider_card (step s (Settle i r)) p = provider_card s p)
     \<and> (\<not> truthy (summary s) \<longrightarrow> summary_panel (step s (Settle i r)) = [])
     \<and> console (step s (Settle i r)) =
         (if r = Replied status body \<and> \<not> ok status then console s
          else console s @ [''Summary generation failed: '' @ message e])"
proof -
  let ?t = "s\<lparr> settled := i # settled s \<rparr>"
  have st: "step s (Settle i r) = summary_settled r ?t"
    by (rule step_summary_settle [OF assms(1,2)])
  have sm: "summary (summary_settled r ?t) = summary s"
    using assms(3) by (auto simp: summary_settled_def Let_def)
  have co: "console (summary_settled r ?t) =
         (if r = Replied status body \<and> \<not> ok status then console s
          else console s @ [''Summary generation failed: '' @ message e])"
    using assms(3) by (auto simp: summary_settled_def Let_def)
  have cards: "provider_card (summary_settled r ?t) p = provider_card s p" for p
    by (rule card_cong) simp_all
  show ?thesis
    unfolding st using sm co cards by (simp add: summary_panel_def)
qed

theorem summary_failure_is_silent_witness:
  "pending (run initial two_of_five) 5
   \<and> is_summary_call (calls (run initial two_of_five) ! 5)
   \<and> \<not> summaryLoading (step (run initial two_of_five) (Settle 5 refused))
   \<and> summary_panel (step (run initial two_of_five) (Settle 5 refused)) = []
   \<and> console (step (run initial two_of_five) (Settle 5 refused)) = []
   \<and> console (step (run initial two_of_five) (Settle 5 unreachable))
       = [''Summary generation failed: Failed to fetch'']"
proof -
  let ?s = "run initial two_of_five"
  let ?body = "Inr [(''error'',
     JStr ''Missing API key: ANTHROPIC_API_KEY. Add it in Vercel Environment Variables.'')]
     :: js_error + (string \<times> js) list"
  have a: "pending ?s 5" by code_simp
  have sc: "is_summary_call (calls ?s ! 5)" by code_simp
  then obtain sp where b: "calls ?s ! 5 = SummaryCall sp"
    by (auto simp: is_summary_call_def split: call.splits)
  have c: "\<not> truthy (summary ?s)" "console ?s = []" by code_simp+
  have r1: "refused = Replied 500 ?body \<and> \<not> ok 500"
    by (simp add: refused_def ok_def)
  have r2: "unreachable = Rejected (TypeError ''Failed to fetch'')"
    by (simp add: unreachable_def)
  from r1 have f1: "refused = Rejected (TypeError []) \<or> (refused = Replied 500 (Inl (TypeError [])) \<and> ok 500)
      \<or> (refused = Replied 500 ?body \<and> \<not> ok 500)" by simp
  from r2 have f2: "unreachable = Rejected (TypeError ''Failed to fetch'')
      \<or> (unreachable = Replied 200 (Inl (TypeError ''Failed to fetch'')) \<and> ok 200)
      \<or> (unreachable = Replied 200 ?body \<and> \<not> ok 200)" by simp
  from summary_failure_is_silent [OF a b f1] summary_failure_is_silent [OF a b f2]
  show ?thesis
    using a b c r1 by (simp add: is_summary_call_def r2)
qed



text \<open>
  Claim C9 fails as stated. In the scenario \<open>answered_without_text\<close> the provider of the
  endpoint answers 200 without a \<open>content\<close>, the endpoint passes that on as a success
  without a \<open>response\<close>, and when the call settles the page holds neither a text nor an
  error message for ChatGPT: the response stored is \<open>undefined\<close>, and the card shows the
  placeholder. In the scenario \<open>late_text_then_failure\<close> the text of a superseded call is
  stored, and then the call of the current submission fails: the page holds a text and an
  error message for ChatGPT.
\<close>

theorem neither_or_both_counterexample:
  "pending (run initial [Edit ''Explain quicksort'', Click]) 0
   \<and> served without_content (calls (run initial [Edit ''Explain quicksort'', Click]) ! 0)
        = Some no_text
   \<and> map_of (responses (run initial answered_without_text)) ''chatgpt'' = Some JUndefined
   \<and> \<not> truthy (response_of (run initial answered_without_text) ''chatgpt'')
   \<and> error_of (run initial answered_without_text) ''chatgpt'' = []
   \<and> \<not> is_loading (run initial answered_without_text) ''chatgpt''
   \<and> provider_card (run initial answered_without_text) (AI_PROVIDERS ! 0) = [Placeholder]
   \<and> pending (run initial (superseded @ [Settle 0 (answered ''GPT-5.2'' ''It partitions.'')])) 5
   \<and> response_of (run initial late_text_then_failure) ''chatgpt'' = JStr ''It partitions.''
   \<and> error_of (run initial late_text_then_failure) ''chatgpt'' = ''Failed to fetch''
   \<and> \<not> is_loading (run initial late_text_then_failure) ''chatgpt''
   \<and> provider_card (run initial late_text_then_failure) (AI_PROVIDERS ! 0)
        = [ErrorMessage ''Failed to fetch'', ResponseBody (JStr ''It partitions.'')]"
  by code_simp

text \<open>
  Claim C9 (amended). When a provider's call settles, whatever the reply, the provider's
  loading flag is lowered. On a success status the \<open>response\<close> of the body is stored as its
  response (\<open>undefined\<close> if the body has none) and its error is left as it was. On a
  rejected \<open>fetch\<close> or a body that cannot be decoded the message of the error, and on a
  failure status the \<open>error\<close> of the body as a string (the provider's name and \<open>failed\<close>
  when that is falsy, the message of the \<open>TypeError\<close> when it cannot be converted), is
  stored as its error, and its response is left as it was. So when the page
  held neither a text nor an error message for the provider before, as \<open>handleSubmit\<close>
  leaves it, it never holds both afterwards, and it holds exactly one of the two precisely
  when what was stored is not empty: a truthy response, or a message that is not the empty
  string.
\<close>

theorem provider_settle_outcome:
  assumes "pending s i" and "calls s ! i = ProviderCall p q"
  shows "map_of (loading (step s (Settle i r))) (ident p) = Some False
     \<and> \<not> is_loading (step s (Settle i r)) (ident p)
     \<and> (r = Replied status (Inr data) \<and> ok status \<longrightarrow>
          map_of (responses (step s (Settle i r))) (ident p) = Some (property data ''response'')
          \<and> response_of (step s (Settle i r)) (ident p) = property data ''response''
          \<and> error_of (step s (Settle i r)) (ident p) = error_of s (ident p))
     \<and> (r = Rejected e \<or> r = Replied status (Inl e) \<longrightarrow>
          error_of (step s (Settle i r)) (ident p) = message e
          \<and> response_of (step s (Settle i r)) (ident p) = response_of s (ident p))
     \<and> (r = Replied status (Inr data) \<and> \<not> ok status \<longrightarrow>
          error_of (step s (Settle i r)) (ident p) = thrown_message p data
          \<and> (\<not> truthy (property data ''error'') \<longrightarrow>
                error_of (step s (Settle i r)) (ident p) = name p @ '' failed'')
          \<and> (\<forall>t. truthy (property data ''error'')
                  \<and> js_to_string (property data ''error'') = Inr t \<longrightarrow>
                error_of (step s (Settle i r)) (ident p) = t)
          \<and> (\<forall>x. js_to_string (property data ''error'') = Inl x \<longrightarrow>
                error_of (step s (Settle i r)) (ident p) = message x)
          \<and> response_of (step s (Settle i r)) (ident p) = response_of s (ident p))
     \<and> (responses (step s (Settle i r)) = responses s \<or> error (step s (Settle i r)) = error s)
     \<and> (\<not> truthy (response_of s (ident p)) \<and> error_of s (ident p) = [] \<longrightarrow>
          \<not> (truthy (response_of (step s (Settle i r)) (ident p))
               \<and> error_of (step s (Settle i r)) (ident p) \<noteq> [])
          \<and> (r = Replied status (Inr data) \<and> ok status \<longrightarrow>
                (truthy (response_of (step s (Settle i r)) (ident p))
                   \<noteq> (error_of (step s (Settle i r)) (ident p) \<noteq> []))
                = truthy (property data ''response''))
          \<and> (r = Rejected e \<or> r = Replied status (Inl e) \<longrightarrow>
                (truthy (response_of (step s (Settle i r)) (ident p))
                   \<noteq> (error_of (step s (Settle i r)) (ident p) \<noteq> []))
                = (message e \<noteq> []))
          \<and> (r = Replied status (Inr data) \<and> \<not> ok status \<longrightarrow>
                (truthy (response_of (step s (Settle i r)) (ident p))
                   \<noteq> (error_of (step s (Settle i r)) (ident p) \<noteq> []))
                = (thrown_message p data \<noteq> [])))"
proof -
  let ?s' = "step s (Settle i r)"
  let ?k = "ident p"
  note cells = step_settle_cells [OF assms, of r]
  have a: "map_of (loading ?s') ?k = Some False" "\<not> is_loading ?s' ?k"
    by (simp_all add: cells(1) is_loading_def update_conv')
  have b: "map_of (responses ?s') ?k = Some (property data ''response'')
          \<and> response_of ?s' ?k = property data ''response''
          \<and> error_of ?s' ?k = error_of s ?k"
    if "r = Replied status (Inr data) \<and> ok status"
    using cells(2) [of status data] that
    by (simp add: response_of_def error_of_def update_conv')
  have c: "error_of ?s' ?k = message e \<and> response_of ?s' ?k = response_of s ?k"
    if "r = Rejected e \<or> r = Replied status (Inl e)"
    using cells(3) [of e status] that
    by (simp add: response_of_def error_of_def update_conv')
  have d: "error_of ?s' ?k = thrown_message p data \<and> response_of ?s' ?k = response_of s ?k"
    if "r = Replied status (Inr data) \<and> \<not> ok status"
    using cells(4) [of status data] that
    by (simp add: response_of_def error_of_def update_conv')
  have msg: "(\<not> truthy (property data ''error'') \<longrightarrow> thrown_message p data = name p @ '' failed'')
      \<and> (\<forall>t. truthy (property data ''error'') \<and> js_to_string (property data ''error'') = Inr t \<longrightarrow>
            thrown_message p data = t)
      \<and> (\<forall>x. js_to_string (property data ''error'') = Inl x \<longrightarrow> thrown_message p data = message x)"
    using unconvertible_truthy [of "property data ''error''"]
    by (auto simp: thrown_message_def)
  have d': "r = Replied status (Inr data) \<and> \<not> ok status \<longrightarrow>
          error_of ?s' ?k = thrown_message p data
          \<and> (\<not> truthy (property data ''error'') \<longrightarrow> error_of ?s' ?k = name p @ '' failed'')
          \<and> (\<forall>t. truthy (property data ''error'')
                  \<and> js_to_string (property data ''error'') = Inr t \<longrightarrow>
                error_of ?s' ?k = t)
          \<and> (\<forall>x. js_to_string (property data ''error'') = Inl x \<longrightarrow>
                error_of ?s' ?k = message x)
          \<and> response_of ?s' ?k = response_of s ?k"
    using d msg by simp
  have st: "?s' = effect_body (provider_settled p r (s\<lparr> settled := i # settled s \<rparr>))"
    by (rule step_provider_settle [OF assms])
  from provider_settled_writes_one [of p r "s\<lparr> settled := i # settled s \<rparr>"]
  have one: "(\<exists>v. responses ?s' = AList.update ?k v (responses s) \<and> error ?s' = error s)
      \<or> (\<exists>m. error ?s' = AList.update ?k m (error s) \<and> responses ?s' = responses s)"
    by (simp add: st)
  then have f: "responses ?s' = responses s \<or> error ?s' = error s"
    by auto
  have g: "\<not> (truthy (response_of ?s' ?k) \<and> error_of ?s' ?k \<noteq> [])"
    if "\<not> truthy (response_of s ?k) \<and> error_of s ?k = []"
    using one that by (auto simp: response_of_def error_of_def)
  have h: "\<not> truthy (response_of s ?k) \<and> error_of s ?k = [] \<longrightarrow>
          \<not> (truthy (response_of ?s' ?k) \<and> error_of ?s' ?k \<noteq> [])
          \<and> (r = Replied status (Inr data) \<and> ok status \<longrightarrow>
                (truthy (response_of ?s' ?k) \<noteq> (error_of ?s' ?k \<noteq> []))
                = truthy (property data ''response''))
          \<and> (r = Rejected e \<or> r = Replied status (Inl e) \<longrightarrow>
                (truthy (response_of ?s' ?k) \<noteq> (error_of ?s' ?k \<noteq> []))
                = (message e \<noteq> []))
          \<and> (r = Replied status (Inr data) \<and> \<not> ok status \<longrightarrow>
                (truthy (response_of ?s' ?k) \<noteq> (error_of ?s' ?k \<noteq> []))
                = (thrown_message p data \<noteq> []))"
    using b c d g by auto
  have b': "r = Replied status (Inr data) \<and> ok status \<longrightarrow>
          map_of (responses ?s') ?k = Some (property data ''response'')
          \<and> response_of ?s' ?k = property data ''response''
          \<and> error_of ?s' ?k = error_of s ?k"
    using b by blast
  have c': "r = Rejected e \<or> r = Replied status (Inl e) \<longrightarrow>
          error_of ?s' ?k = message e \<and> response_of ?s' ?k = response_of s ?k"
    using c by blast
  show ?thesis
    by (intro conjI a b' c' d' f h)
qed

theorem provider_settle_outcome_witness:
  "pending (run initial [Edit ''Explain quicksort'', Click]) 3
   \<and> calls (run initial [Edit ''Explain quicksort'', Click]) ! 3
        = ProviderCall (AI_PROVIDERS ! 3) ''Explain quicksort''
   \<and> \<not> truthy (response_of (run initial [Edit ''Explain quicksort'', Click]) ''grok'')
   \<and> error_of (run initial [Edit ''Explain quicksort'', Click]) ''grok'' = []
   \<and> \<not> is_loading (step (run initial [Edit ''Explain quicksort'', Click])
         (Settle 3 unreachable)) ''grok''
   \<and> error_of (step (run initial [Edit ''Explain quicksort'', Click])
         (Settle 3 unreachable)) ''grok'' = ''Failed to fetch''
   \<and> \<not> truthy (response_of (step (run initial [Edit ''Explain quicksort'', Click])
         (Settle 3 unreachable)) ''grok'')
   \<and> response_of (step (run initial [Edit ''Explain quicksort'', Click])
         (Settle 3 (answered ''Grok 4'' ''It sorts.''))) ''grok'' = JStr ''It sorts.''
   \<and> error_of (step (run initial [Edit ''Explain quicksort'', Click])
         (Settle 3 (answered ''Grok 4'' ''It sorts.''))) ''grok'' = []
   \<and> error_of (step (run initial [Edit ''Explain quicksort'', Click])
         (Settle 3 (Replied 429 (Inr [(''error'', JStr ''Rate limited by Grok 4.'')])))) ''grok''
        = ''Rate limited by Grok 4.''
   \<and> error_of (step (run initial [Edit ''Explain quicksort'', Click])
         (Settle 3 (Replied 502 (Inr [])))) ''grok'' = ''Grok failed''
   \<and> error_of (step (run initial [Edit ''Explain quicksort'', Click])
         (Settle 3 (Replied 500 (Inr [(''error'', JObj [(''toString'', JNull)])])))) ''grok''
        = ''Cannot convert object to primitive value''"
proof -
  let ?s = "run initial [Edit ''Explain quicksort'', Click]"
  let ?data = "[(''response'', JStr ''It sorts.''), (''model'', JStr ''Grok 4'')]"
  let ?limited = "[(''error'', JStr ''Rate limited by Grok 4.'')]"
  let ?odd = "[(''error'', JObj [(''toString'', JNull)])]"
  have a: "pending ?s 3" by code_simp
  have b: "calls ?s ! 3 = ProviderCall (AI_PROVIDERS ! 3) ''Explain quicksort''" by code_simp
  have c: "\<not> truthy (response_of ?s ''grok'')" "error_of ?s ''grok'' = []"
    by code_simp+
  have g: "ident (AI_PROVIDERS ! 3) = ''grok''" "name (AI_PROVIDERS ! 3) = ''Grok''"
    by (simp_all add: AI_PROVIDERS_def)
  have r1: "unreachable = Rejected (TypeError ''Failed to fetch'')"
    by (simp add: unreachable_def)
  have r2: "answered ''Grok 4'' ''It sorts.'' = Replied 200 (Inr ?data)"
    by (simp add: answered_def)
  from provider_settle_outcome [OF a b, of unreachable 200 "[]" "TypeError ''Failed to fetch''"]
    r1 c
  have failed: "\<not> is_loading (step ?s (Settle 3 unreachable)) ''grok''"
    "error_of (step ?s (Settle 3 unreachable)) ''grok'' = ''Failed to fetch''"
    "\<not> truthy (response_of (step ?s (Settle 3 unreachable)) ''grok'')"
    by (simp_all add: g)
  from provider_settle_outcome [OF a b, of "answered ''Grok 4'' ''It sorts.''" 200 ?data
      "TypeError []"] r2 c
  have succeeded:
    "response_of (step ?s (Settle 3 (answered ''Grok 4'' ''It sorts.''))) ''grok'' = JStr ''It sorts.''"
    "error_of (step ?s (Settle 3 (answered ''Grok 4'' ''It sorts.''))) ''grok'' = []"
    by (simp_all add: g ok_def property_def)
  from provider_settle_outcome [OF a b, of "Replied 429 (Inr ?limited)" 429 ?limited
      "TypeError []"]
  have limited: "error_of (step ?s (Settle 3 (Replied 429 (Inr ?limited)))) ''grok''
      = ''Rate limited by Grok 4.''"
    by (auto simp: g ok_def property_def thrown_message_def)
  from provider_settle_outcome [OF a b, of "Replied 502 (Inr [])" 502 "[]" "TypeError []"]
  have bare: "error_of (step ?s (Settle 3 (Replied 502 (Inr [])))) ''grok'' = ''Grok failed''"
    by (auto simp: g ok_def property_def thrown_message_def)
  from provider_settle_outcome [OF a b, of "Replied 500 (Inr ?odd)" 500 ?odd "TypeError []"]
  have odd: "error_of (step ?s (Settle 3 (Replied 500 (Inr ?odd)))) ''grok''
      = ''Cannot convert object to primitive value''"
    by (auto simp: g ok_def property_def thrown_message_def)
  from a b c failed succeeded limited bare odd show ?thesis
    by simp
qed

end
